theory Spec2Isabelle
  imports Main
begin

section \<open>Values of the host language\<close>

text \<open>
  A JavaScript number as far as the code inspects one: the \<open>maxAge\<close> option is compared
  with \<open>0\<close> and with \<open>2_147_483_647\<close>, tested for truthiness and for being
  \<open>Number.POSITIVE_INFINITY\<close>, and added to \<open>Date.now()\<close>. Finite numbers are integers
  (milliseconds); the two infinities and NaN are kept because each takes its own path
  through these tests.
\<close>

datatype jsnum = Fin int | PosInf | NegInf | NaN

datatype val = Undefined | Null | VBool bool | VNum jsnum | VStr string | VObj nat

text \<open>What a \<open>throw\<close> carries: the module's own \<open>TypeError\<close>s, or whatever a callable threw.\<close>

datatype exn = TypeError string | Thrown val

text \<open>\<open>a > k\<close> and \<open>a < k\<close> for a number \<open>a\<close> and a finite constant \<open>k\<close>; every comparison
  with NaN is false.\<close>

fun js_gt :: "jsnum \<Rightarrow> int \<Rightarrow> bool" where
  "js_gt (Fin i) k = (i > k)"
| "js_gt PosInf k = True"
| "js_gt NegInf k = False"
| "js_gt NaN k = False"

fun js_lt :: "jsnum \<Rightarrow> int \<Rightarrow> bool" where
  "js_lt (Fin i) k = (i < k)"
| "js_lt PosInf k = False"
| "js_lt NegInf k = True"
| "js_lt NaN k = False"

text \<open>ToBoolean on a number: \<open>0\<close> and NaN are falsy.\<close>

fun num_truthy :: "jsnum \<Rightarrow> bool" where
  "num_truthy (Fin i) = (i \<noteq> 0)"
| "num_truthy NaN = False"
| "num_truthy PosInf = True"
| "num_truthy NegInf = True"

text \<open>ToBoolean on a value; an object is always truthy.\<close>

fun truthy :: "val \<Rightarrow> bool" where
  "truthy Undefined = False"
| "truthy Null = False"
| "truthy (VBool b) = b"
| "truthy (VNum n) = num_truthy n"
| "truthy (VStr s) = (s \<noteq> [])"
| "truthy (VObj r) = True"

fun js_add :: "int \<Rightarrow> jsnum \<Rightarrow> jsnum" where
  "js_add t (Fin i) = Fin (t + i)"
| "js_add t PosInf = PosInf"
| "js_add t NegInf = NegInf"
| "js_add t NaN = NaN"

section \<open>Functions, storages and the module state\<close>

text \<open>
  Function identity is what the two \<open>WeakMap\<close>s of the module are keyed by. An original
  callable has the identity it was given; every closure \<open>memoized\<close> created by
  \<open>memoize\<close> and every result of \<open>originalMethod.bind(this)\<close> is a new function object.
\<close>

datatype ident = Orig nat | Wrap nat | BoundId nat

text \<open>
  A function value.
  \<^item> \<open>Native n body\<close> is an original callable: \<open>body\<close> maps the caller's world, the
    receiver and the argument list to a returned value or a thrown failure, and the new
    world. The world stands for everything the callable can read and write (counters,
    fields of receivers); it cannot reach the module's private state.
  \<^item> \<open>Bound i f r\<close> is \<open>f.bind(r)\<close>.
  \<^item> \<open>Memoized m function_ cacheKey cache maxAge\<close> is the closure \<open>memoized\<close> with the
    variables it captures; \<open>cache\<close> is the address of the storage object.
\<close>

datatype 'w func =
    Native nat "'w \<Rightarrow> val \<Rightarrow> val list \<Rightarrow> (exn + val) \<times> 'w"
  | Bound nat "'w func" val
  | Memoized nat "'w func" "(val list \<Rightarrow> val) option" nat "jsnum option"

fun identity :: "'w func \<Rightarrow> ident" where
  "identity (Native n body) = Orig n"
| "identity (Bound i f r) = BoundId i"
| "identity (Memoized m f ck c ma) = Wrap m"

text \<open>\<open>CacheStorageContent\<close>: the record stored under a key.\<close>

record item =
  data :: val
  maxAge :: jsnum

text \<open>
  A storage object (\<open>CacheStorage\<close>): an exact-match map from keys to items, as \<open>Map\<close> is,
  which may or may not implement the optional \<open>clear\<close>. Keys are compared as \<open>Map\<close>
  compares them, which on the values above is equality (NaN equals NaN, an object equals
  itself). A storage that forgets or reorders entries on its own is not described.
\<close>

record cache =
  entries :: "val \<rightharpoonup> item"
  has_clear :: bool

text \<open>The callback of an eviction timer is \<open>() => cache.delete(key)\<close>; \<open>t_delay\<close> is the
  delay it was scheduled with.\<close>

record timer_task =
  t_cache :: nat
  t_key :: val
  t_delay :: jsnum

text \<open>\<open>Options\<close>; \<open>None\<close> is an option left out (\<open>undefined\<close>).\<close>

record options =
  opt_cacheKey :: "(val list \<Rightarrow> val) option"
  opt_cache :: "nat option"
  opt_maxAge :: "jsnum option"

text \<open>
  The state the module runs in: the caller's world and a log of the invocations of
  original callables (the call counter of a test), the clock read by \<open>Date.now()\<close>, the
  heap of storage objects, the module's \<open>cacheStore\<close> and \<open>cacheTimerStore\<close>, and the
  host's table of timers that are scheduled and have neither fired nor been cancelled.
  A \<open>Set\<close> of timer handles is a list without duplicates, in insertion order.

  The remaining fields belong to the decorators. \<open>memoizedMethodsMap\<close> and
  \<open>memoizedValuesMap\<close> are the two \<open>WeakMap\<close>s that each call of \<open>memoizeDecorator\<close>
  creates, indexed by the number of that call and keyed by the address of the receiver.
  For the decorator of \<open>distribution/index.js\<close>, which keeps its memo in a property of
  the receiver named by a fresh \<open>Symbol\<close>, \<open>own_methods\<close> and \<open>own_values\<close> give the own
  properties of each object under such symbols (a function under a symbol of a decorated
  method, a value under a symbol of a decorated getter), \<open>protos\<close> gives the prototype
  chain of each object, nearest first, and \<open>extensible\<close> tells whether a property can
  still be added to an object (it cannot after \<open>Object.preventExtensions\<close>,
  \<open>Object.seal\<close> or \<open>Object.freeze\<close>). The callables of the world do not change the
  prototype chain or the extensibility of an object.
\<close>

record 'w state =
  world :: 'w
  calls :: "(nat \<times> val \<times> val list) list"
  now :: int
  caches :: "nat \<Rightarrow> cache"
  next_cache :: nat
  next_fn :: nat
  cacheStore :: "ident \<rightharpoonup> nat"
  cacheTimerStore :: "ident \<rightharpoonup> nat list"
  pending :: "nat \<rightharpoonup> timer_task"
  next_timer :: nat
  next_decorator :: nat
  memoizedMethodsMap :: "nat \<Rightarrow> nat \<rightharpoonup> 'w func"
  memoizedValuesMap :: "nat \<Rightarrow> nat \<rightharpoonup> val"
  next_symbol :: nat
  own_methods :: "nat \<Rightarrow> nat \<rightharpoonup> 'w func"
  own_values :: "nat \<Rightarrow> nat \<rightharpoonup> val"
  protos :: "nat \<Rightarrow> nat list"
  extensible :: "nat \<Rightarrow> bool"

subsection \<open>Storage operations\<close>

definition new_Map :: "'w state \<Rightarrow> nat \<times> 'w state" where
  "new_Map s =
     (next_cache s,
      s\<lparr>caches := (caches s)(next_cache s := \<lparr>entries = Map.empty, has_clear = True\<rparr>),
        next_cache := Suc (next_cache s)\<rparr>)"

definition cache_get :: "nat \<Rightarrow> val \<Rightarrow> 'w state \<Rightarrow> item option" where
  "cache_get c key s = entries (caches s c) key"

definition cache_set :: "nat \<Rightarrow> val \<Rightarrow> item \<Rightarrow> 'w state \<Rightarrow> 'w state" where
  "cache_set c key it s =
     s\<lparr>caches := (caches s)(c := (caches s c)\<lparr>entries := (entries (caches s c))(key \<mapsto> it)\<rparr>)\<rparr>"

definition cache_delete :: "nat \<Rightarrow> val \<Rightarrow> 'w state \<Rightarrow> 'w state" where
  "cache_delete c key s =
     s\<lparr>caches := (caches s)(c := (caches s c)\<lparr>entries := (entries (caches s c))(key := None)\<rparr>)\<rparr>"

definition cache_clear :: "nat \<Rightarrow> 'w state \<Rightarrow> 'w state" where
  "cache_clear c s =
     s\<lparr>caches := (caches s)(c := (caches s c)\<lparr>entries := Map.empty\<rparr>)\<rparr>"

subsection \<open>The host's timers\<close>

definition setTimeout :: "timer_task \<Rightarrow> 'w state \<Rightarrow> nat \<times> 'w state" where
  "setTimeout task s =
     (next_timer s,
      s\<lparr>pending := (pending s)(next_timer s \<mapsto> task), next_timer := Suc (next_timer s)\<rparr>)"

definition clearTimeout :: "nat \<Rightarrow> 'w state \<Rightarrow> 'w state" where
  "clearTimeout t s = s\<lparr>pending := (pending s)(t := None)\<rparr>"

text \<open>The host fires a scheduled timer: its callback deletes the key from the storage. A
  handle that is not scheduled any more does nothing.\<close>

definition fire_timer :: "nat \<Rightarrow> 'w state \<Rightarrow> 'w state" where
  "fire_timer t s =
     (case pending s t of
        None \<Rightarrow> s
      | Some task \<Rightarrow> cache_delete (t_cache task) (t_key task) (s\<lparr>pending := (pending s)(t := None)\<rparr>))"

definition advance_clock :: "int \<Rightarrow> 'w state \<Rightarrow> 'w state" where
  "advance_clock d s = s\<lparr>now := now s + d\<rparr>"

text \<open>\<open>timers.add(timer)\<close> on a \<open>Set\<close>.\<close>

definition set_add :: "nat \<Rightarrow> nat list \<Rightarrow> nat list" where
  "set_add t ts = (if t \<in> set ts then ts else ts @ [t])"

section \<open>memoize\<close>

definition maxSetIntervalValue :: int where
  "maxSetIntervalValue = 2147483647"

text \<open>\<open>cacheKey ? cacheKey(arguments_) : arguments_[0]\<close>; reading index 0 of an empty
  argument list gives \<open>undefined\<close>.\<close>

definition derive_key :: "(val list \<Rightarrow> val) option \<Rightarrow> val list \<Rightarrow> val" where
  "derive_key cacheKey args =
     (case cacheKey of
        Some ck \<Rightarrow> ck args
      | None \<Rightarrow> (case args of [] \<Rightarrow> Undefined | a # _ \<Rightarrow> a))"

text \<open>\<open>maxAge ? Date.now() + maxAge : Number.POSITIVE_INFINITY\<close>\<close>

definition expiry :: "jsnum option \<Rightarrow> int \<Rightarrow> jsnum" where
  "expiry max_age t =
     (case max_age of
        None \<Rightarrow> PosInf
      | Some n \<Rightarrow> if num_truthy n then js_add t n else PosInf)"

text \<open>The block guarded by \<open>typeof maxAge === 'number' && maxAge !== Number.POSITIVE_INFINITY\<close>:
  schedule the eviction and record the handle under the identity of \<open>function_\<close>.\<close>

definition schedule_eviction :: "ident \<Rightarrow> nat \<Rightarrow> val \<Rightarrow> jsnum option \<Rightarrow> 'w state \<Rightarrow> 'w state" where
  "schedule_eviction fid c key max_age s =
     (case max_age of
        None \<Rightarrow> s
      | Some n \<Rightarrow>
          if n = PosInf then s
          else
            (let (timer, s1) = setTimeout \<lparr>t_cache = c, t_key = key, t_delay = n\<rparr> s;
                 timers = (case cacheTimerStore s1 fid of None \<Rightarrow> [] | Some ts \<Rightarrow> ts)
             in s1\<lparr>cacheTimerStore := (cacheTimerStore s1)(fid \<mapsto> set_add timer timers)\<rparr>))"

text \<open>Calling a function value with a receiver and an argument list. The last equation is
  the body of the closure \<open>memoized\<close>; \<open>fn\<close>, \<open>args\<close> and \<open>max_age\<close> stand for its
  variables \<open>function_\<close>, \<open>arguments_\<close> and \<open>maxAge\<close>.\<close>

fun call :: "'w func \<Rightarrow> val \<Rightarrow> val list \<Rightarrow> 'w state \<Rightarrow> (exn + val) \<times> 'w state" where
  "call (Native n body) this args s =
     (let (r, w) = body (world s) this args
      in (r, s\<lparr>world := w, calls := calls s @ [(n, this, args)]\<rparr>))"
| "call (Bound i f r) this args s = call f r args s"
| "call (Memoized m fn cacheKey c max_age) this args s =
     (let key = derive_key cacheKey args in
      case cache_get c key s of
        Some cacheItem \<Rightarrow> (Inr (data cacheItem), s)
      | None \<Rightarrow>
          (case call fn this args s of
             (Inl e, s1) \<Rightarrow> (Inl e, s1)
           | (Inr result, s1) \<Rightarrow>
               (let s2 = cache_set c key \<lparr>data = result, maxAge = expiry max_age (now s1)\<rparr> s1;
                    s3 = schedule_eviction (identity fn) c key max_age s2
                in (Inr result, s3))))"

text \<open>
  \<open>memoize(function_, {cacheKey, cache = new Map(), maxAge} = {})\<close>. The default of
  \<open>cache\<close> is evaluated while the parameters are bound, before the body runs. The name,
  length and properties that \<open>mimicFunction\<close> copies onto the closure, \<open>timer.unref\<close> and
  the weakness of the two \<open>WeakMap\<close>s have no part in what a call computes and are left
  out.
\<close>

definition memoize :: "'w func \<Rightarrow> options \<Rightarrow> 'w state \<Rightarrow> (exn + 'w func) \<times> 'w state" where
  "memoize fn opts s0 =
     (let (c, s) = (case opt_cache opts of None \<Rightarrow> new_Map s0 | Some c \<Rightarrow> (c, s0));
          cacheKey = opt_cacheKey opts;
          max_age = opt_maxAge opts
      in
        if max_age = Some (Fin 0) then (Inr fn, s)
        else if (case max_age of None \<Rightarrow> False | Some n \<Rightarrow> js_gt n maxSetIntervalValue)
          then (Inl (TypeError ''The `maxAge` option cannot exceed 2147483647.''), s)
        else if (case max_age of None \<Rightarrow> False | Some n \<Rightarrow> js_lt n 0)
          then (Inl (TypeError ''The `maxAge` option should not be a negative number.''), s)
        else
          (let memoized = Memoized (next_fn s) fn cacheKey c max_age
           in (Inr memoized,
               s\<lparr>next_fn := Suc (next_fn s),
                 cacheStore := (cacheStore s)(Wrap (next_fn s) \<mapsto> c)\<rparr>)))"

section \<open>memoizeClear\<close>

text \<open>\<open>for (const timer of cacheTimerStore.get(function_) ?? []) clearTimeout(timer)\<close>\<close>

definition memoizeClear :: "'w func \<Rightarrow> 'w state \<Rightarrow> (exn + unit) \<times> 'w state" where
  "memoizeClear fn s =
     (case cacheStore s (identity fn) of
        None \<Rightarrow> (Inl (TypeError ''Can't clear a function that was not memoized!''), s)
      | Some c \<Rightarrow>
          if \<not> has_clear (caches s c)
          then (Inl (TypeError ''The cache Map can't be cleared!''), s)
          else
            (let s1 = cache_clear c s;
                 timers = (case cacheTimerStore s1 (identity fn) of None \<Rightarrow> [] | Some ts \<Rightarrow> ts)
             in (Inr (), fold clearTimeout timers s1)))"

section \<open>memoizeDecorator\<close>

text \<open>
  A property descriptor as the decorator reads it: \<open>descriptor.value\<close> is a function or
  some other value (\<open>DVal Undefined\<close> when absent), \<open>descriptor.get\<close> is a function or absent.
\<close>

datatype 'w dvalue = DFun "'w func" | DVal val

record 'w descriptor =
  d_value :: "'w dvalue"
  d_get :: "'w func option"

text \<open>
  The arrow function returned by \<open>memoizeDecorator(options)\<close> captures \<open>options\<close> and the
  two maps created by that call. The function it installs on the descriptor is a getter
  (\<open>descriptor.get\<close>) or a method (\<open>descriptor.value\<close>) and captures \<open>originalMethod\<close>;
  the fields the decorator deletes from the descriptor are not described. A decorated
  member is invoked on an object, the receiver, given by its address; a call whose
  receiver is not an object is not described.
\<close>

datatype decorator = Decorator nat options

datatype 'w decorated = MemoGetter nat "'w func" | MemoMethod nat "'w func" options

definition memoizeDecorator :: "options \<Rightarrow> 'w state \<Rightarrow> decorator \<times> 'w state" where
  "memoizeDecorator opts s =
     (Decorator (next_decorator s) opts,
      s\<lparr>memoizedMethodsMap := (memoizedMethodsMap s)(next_decorator s := Map.empty),
        memoizedValuesMap := (memoizedValuesMap s)(next_decorator s := Map.empty),
        next_decorator := Suc (next_decorator s)\<rparr>)"

text \<open>\<open>descriptor.value ?? descriptor.get\<close>, and \<open>None\<close> when the result is not a function.\<close>

definition originalMethod :: "'w descriptor \<Rightarrow> 'w func option" where
  "originalMethod descriptor =
     (case d_value descriptor of
        DFun f \<Rightarrow> Some f
      | DVal v \<Rightarrow> if v = Undefined \<or> v = Null then d_get descriptor else None)"

definition apply_decorator :: "decorator \<Rightarrow> 'w descriptor \<Rightarrow> exn + 'w decorated" where
  "apply_decorator dec descriptor =
     (case dec of Decorator d opts \<Rightarrow>
        (let originalIsGetter = (d_get descriptor \<noteq> None);
             originalIsValue = (d_value descriptor \<noteq> DVal Undefined)
         in case originalMethod descriptor of
              None \<Rightarrow> Inl (TypeError ''The decorated value must be a function or a getter'')
            | Some om \<Rightarrow>
                if originalIsGetter then Inr (MemoGetter d om)
                else if originalIsValue then Inr (MemoMethod d om opts)
                else Inr (MemoMethod d om opts)))"

text \<open>\<open>originalMethod.bind(this)\<close>\<close>

definition bind_this :: "'w func \<Rightarrow> val \<Rightarrow> 'w state \<Rightarrow> 'w func \<times> 'w state" where
  "bind_this f this s = (Bound (next_fn s) f this, s\<lparr>next_fn := Suc (next_fn s)\<rparr>)"

text \<open>The getter installed as \<open>descriptor.get\<close>.\<close>

definition decorated_get :: "nat \<Rightarrow> 'w func \<Rightarrow> nat \<Rightarrow> 'w state \<Rightarrow> (exn + val) \<times> 'w state" where
  "decorated_get d om r s =
     (case memoizedValuesMap s d r of
        Some v \<Rightarrow> (Inr v, s)
      | None \<Rightarrow>
          (case call om (VObj r) [] s of
             (Inl e, s1) \<Rightarrow> (Inl e, s1)
           | (Inr v, s1) \<Rightarrow>
               (Inr v,
                s1\<lparr>memoizedValuesMap :=
                     (memoizedValuesMap s1)(d := (memoizedValuesMap s1 d)(r \<mapsto> v))\<rparr>)))"

text \<open>The method installed as \<open>descriptor.value\<close>. \<open>memoizedFunction(...arguments_)\<close> is a
  plain call, so the receiver inside it is \<open>undefined\<close>; \<open>memoize\<close> never returns
  \<open>undefined\<close>, so the branch testing for that is not taken.\<close>

definition decorated_value ::
  "nat \<Rightarrow> 'w func \<Rightarrow> options \<Rightarrow> nat \<Rightarrow> val list \<Rightarrow> 'w state \<Rightarrow> (exn + val) \<times> 'w state" where
  "decorated_value d om opts r args s =
     (case memoizedMethodsMap s d r of
        Some memoizedFunction \<Rightarrow> call memoizedFunction Undefined args s
      | None \<Rightarrow>
          (let (bound, s1) = bind_this om (VObj r) s in
           case memoize bound opts s1 of
             (Inl e, s2) \<Rightarrow> (Inl e, s2)
           | (Inr memoizedFunction, s2) \<Rightarrow>
               call memoizedFunction Undefined args
                 (s2\<lparr>memoizedMethodsMap :=
                       (memoizedMethodsMap s2)(d := (memoizedMethodsMap s2 d)(r \<mapsto> memoizedFunction))\<rparr>)))"

subsection \<open>The decorator of \<open>distribution/index.js\<close>\<close>

text \<open>
  This build keeps the memo in a property of the receiver, named by a \<open>Symbol\<close> created
  when the decorator is applied. \<open>this[memoizedKey]\<close> reads through the prototype chain;
  \<open>Object.hasOwn\<close>, the assignment and \<open>Object.defineProperty\<close> act on the receiver itself.
\<close>

datatype decorator_dist = DecoratorDist options

datatype 'w decorated_dist = SymGetter nat "'w func" | SymMethod nat "'w func" options

definition memoizeDecorator_dist :: "options \<Rightarrow> decorator_dist" where
  "memoizeDecorator_dist opts = DecoratorDist opts"

text \<open>\<open>descriptor.value || descriptor.get\<close>, and \<open>None\<close> when the result is not a function.\<close>

definition originalMethod_dist :: "'w descriptor \<Rightarrow> 'w func option" where
  "originalMethod_dist descriptor =
     (case d_value descriptor of
        DFun f \<Rightarrow> Some f
      | DVal v \<Rightarrow> if truthy v then None else d_get descriptor)"

text \<open>\<open>Symbol(...)\<close>: a symbol that did not exist before, so no object has a property
  under it.\<close>

definition new_Symbol :: "'w state \<Rightarrow> nat \<times> 'w state" where
  "new_Symbol s =
     (next_symbol s,
      s\<lparr>own_methods := (\<lambda>x. (own_methods s x)(next_symbol s := None)),
        own_values := (\<lambda>x. (own_values s x)(next_symbol s := None)),
        next_symbol := Suc (next_symbol s)\<rparr>)"

definition apply_decorator_dist ::
  "decorator_dist \<Rightarrow> 'w descriptor \<Rightarrow> 'w state \<Rightarrow> (exn + 'w decorated_dist) \<times> 'w state" where
  "apply_decorator_dist dec descriptor s =
     (case dec of DecoratorDist opts \<Rightarrow>
        (let isGetter = (d_get descriptor \<noteq> None) in
         case originalMethod_dist descriptor of
           None \<Rightarrow> (Inl (TypeError ''The decorated value must be a function or a getter''), s)
         | Some om \<Rightarrow>
             if \<not> isGetter
             then (let (memoizedKey, s1) = new_Symbol s in (Inr (SymMethod memoizedKey om opts), s1))
             else (let (memoizedKey, s1) = new_Symbol s in (Inr (SymGetter memoizedKey om), s1))))"

text \<open>Property lookup along a chain of objects: the first object that has the property.\<close>

fun lookup_chain :: "(nat \<Rightarrow> 'a option) \<Rightarrow> nat list \<Rightarrow> 'a option" where
  "lookup_chain p [] = None"
| "lookup_chain p (x # xs) = (case p x of Some v \<Rightarrow> Some v | None \<Rightarrow> lookup_chain p xs)"

definition get_method :: "nat \<Rightarrow> nat \<Rightarrow> 'w state \<Rightarrow> 'w func option" where
  "get_method r k s = lookup_chain (\<lambda>x. own_methods s x k) (r # protos s r)"

text \<open>\<open>this[memoizedKey] ||= memoize(originalMethod.bind(this), options);
  return this[memoizedKey](...arguments_)\<close>. The right-hand side is evaluated first;
  the assignment then adds a property to the receiver, which in the strict code of a
  module throws a \<open>TypeError\<close> when the receiver is not extensible. (The texts of the two
  errors for a receiver that is not extensible are the host's.)\<close>

definition decorated_value_dist ::
  "nat \<Rightarrow> 'w func \<Rightarrow> options \<Rightarrow> nat \<Rightarrow> val list \<Rightarrow> 'w state \<Rightarrow> (exn + val) \<times> 'w state" where
  "decorated_value_dist k om opts r args s =
     (case get_method r k s of
        Some f \<Rightarrow> call f (VObj r) args s
      | None \<Rightarrow>
          (let (bound, s1) = bind_this om (VObj r) s in
           case memoize bound opts s1 of
             (Inl e, s2) \<Rightarrow> (Inl e, s2)
           | (Inr f, s2) \<Rightarrow>
               if \<not> extensible s2 r
               then (Inl (TypeError ''Cannot add property, object is not extensible''), s2)
               else
                 (let s3 = s2\<lparr>own_methods := (own_methods s2)(r := (own_methods s2 r)(k \<mapsto> f))\<rparr> in
                  case get_method r k s3 of
                    Some g \<Rightarrow> call g (VObj r) args s3
                  | None \<Rightarrow> (Inl (TypeError ''this[memoizedKey] is not a function''), s3))))"

text \<open>The getter: \<open>Object.hasOwn\<close>, the original getter, then \<open>Object.defineProperty\<close>,
  which throws a \<open>TypeError\<close> when the receiver is not extensible.\<close>

definition decorated_get_dist :: "nat \<Rightarrow> 'w func \<Rightarrow> nat \<Rightarrow> 'w state \<Rightarrow> (exn + val) \<times> 'w state" where
  "decorated_get_dist k om r s =
     (case own_values s r k of
        Some v \<Rightarrow> (Inr v, s)
      | None \<Rightarrow>
          (case call om (VObj r) [] s of
             (Inl e, s1) \<Rightarrow> (Inl e, s1)
           | (Inr v, s1) \<Rightarrow>
               if \<not> extensible s1 r
               then (Inl (TypeError ''Cannot define property, object is not extensible''), s1)
               else (Inr v, s1\<lparr>own_values := (own_values s1)(r := (own_values s1 r)(k \<mapsto> v))\<rparr>)))"

section \<open>Notions used to state the properties\<close>

text \<open>A pure callable: its result is a function of the receiver and the arguments, it
  never throws and leaves the world as it is.\<close>

definition pure_callable :: "nat \<Rightarrow> (val \<Rightarrow> val list \<Rightarrow> val) \<Rightarrow> 'w func" where
  "pure_callable n g = Native n (\<lambda>w this args. (Inr (g this args), w))"

text \<open>A \<open>maxAge\<close> that is negative or exceeds \<open>2_147_483_647\<close>, the error \<open>memoize\<close> throws
  for it, and options whose \<open>maxAge\<close> passes the checks of \<open>memoize\<close>.\<close>

definition out_of_range :: "jsnum \<Rightarrow> bool" where
  "out_of_range n = (js_lt n 0 \<or> js_gt n 2147483647)"

definition configuration_error :: "jsnum \<Rightarrow> exn" where
  "configuration_error n =
     (if js_gt n 2147483647 then TypeError ''The `maxAge` option cannot exceed 2147483647.''
      else TypeError ''The `maxAge` option should not be a negative number.'')"


text \<open>The timer handles recorded in \<open>cacheTimerStore\<close> under a function identity.\<close>

definition recorded_timers :: "ident \<Rightarrow> 'w state \<Rightarrow> nat list" where
  "recorded_timers fid s = (case cacheTimerStore s fid of None \<Rightarrow> [] | Some ts \<Rightarrow> ts)"

text \<open>What a call of a function value leaves alone: the maps and properties of the
  decorators, the function-to-storage registry, the allocation counters other than the
  timers', the clock and the extensibility of objects.\<close>

definition call_frame :: "'w state \<Rightarrow> 'w state \<Rightarrow> bool" where
  "call_frame s s' \<longleftrightarrow>
     memoizedMethodsMap s' = memoizedMethodsMap s \<and> memoizedValuesMap s' = memoizedValuesMap s \<and>
     own_methods s' = own_methods s \<and> own_values s' = own_values s \<and> protos s' = protos s \<and>
     next_cache s' = next_cache s \<and> next_fn s' = next_fn s \<and> cacheStore s' = cacheStore s \<and>
     next_decorator s' = next_decorator s \<and> next_symbol s' = next_symbol s \<and> now s' = now s \<and>
     extensible s' = extensible s"

text \<open>
  What a program does once a member is decorated: it uses the decorated member on a
  receiver (reads the getter, or calls the method with arguments), or it does something
  else. \<open>run\<close> gives the state after a sequence of such events and \<open>results\<close> what each
  use of the member returned or threw, in order.
\<close>

datatype 'w event = Use nat "val list" | Elsewhere "'w state \<Rightarrow> 'w state"

fun run ::
  "(nat \<Rightarrow> val list \<Rightarrow> 'w state \<Rightarrow> (exn + val) \<times> 'w state) \<Rightarrow> 'w event list \<Rightarrow> 'w state \<Rightarrow> 'w state" where
  "run member [] s = s"
| "run member (Use r args # es) s = run member es (snd (member r args s))"
| "run member (Elsewhere t # es) s = run member es (t s)"

fun results ::
  "(nat \<Rightarrow> val list \<Rightarrow> 'w state \<Rightarrow> (exn + val) \<times> 'w state) \<Rightarrow> 'w event list \<Rightarrow> 'w state \<Rightarrow>
     (nat \<times> val list \<times> (exn + val)) list" where
  "results member [] s = []"
| "results member (Use r args # es) s =
     (r, args, fst (member r args s)) # results member es (snd (member r args s))"
| "results member (Elsewhere t # es) s = results member es (t s)"




definition keeps_values :: "nat \<Rightarrow> 'w state \<Rightarrow> 'w state \<Rightarrow> bool" where
  "keeps_values d s s' \<longleftrightarrow> memoizedValuesMap s' d = memoizedValuesMap s d"

definition keeps_own_values :: "nat \<Rightarrow> 'w state \<Rightarrow> 'w state \<Rightarrow> bool" where
  "keeps_own_values k s s' \<longleftrightarrow> (\<forall>r. own_values s' r k = own_values s r k)"



fun undisturbed ::
  "('w state \<Rightarrow> 'w state \<Rightarrow> bool) \<Rightarrow> (nat \<Rightarrow> val list \<Rightarrow> 'w state \<Rightarrow> (exn + val) \<times> 'w state) \<Rightarrow>
     'w event list \<Rightarrow> 'w state \<Rightarrow> bool" where
  "undisturbed keeps member [] s = True"
| "undisturbed keeps member (Use r args # es) s = undisturbed keeps member es (snd (member r args s))"
| "undisturbed keeps member (Elsewhere t # es) s = (keeps s (t s) \<and> undisturbed keeps member es (t s))"




section \<open>Callables, options and states that exercise the properties\<close>

text \<open>The module right after loading: both registries empty, no timer, every storage
  address holding an empty \<open>Map\<close>.\<close>

definition initial :: "'w \<Rightarrow> 'w state" where
  "initial w =
     \<lparr>world = w, calls = [], now = 0,
      caches = (\<lambda>_. \<lparr>entries = Map.empty, has_clear = True\<rparr>), next_cache = 0, next_fn = 0,
      cacheStore = Map.empty, cacheTimerStore = Map.empty, pending = Map.empty, next_timer = 0,
      next_decorator = 0, memoizedMethodsMap = (\<lambda>_. Map.empty),
      memoizedValuesMap = (\<lambda>_. Map.empty), next_symbol = 0,
      own_methods = (\<lambda>_. Map.empty), own_values = (\<lambda>_. Map.empty), protos = (\<lambda>_. []),
      extensible = (\<lambda>_. True)\<rparr>"

text \<open>A state with a storage object at address 5 that has no \<open>clear\<close> (a \<open>WeakMap\<close>, say).\<close>

definition with_unclearable :: "unit state" where
  "with_unclearable =
     (initial ())\<lparr>caches := (caches (initial ()))(5 := \<lparr>entries = Map.empty, has_clear = False\<rparr>),
                  next_cache := 6\<rparr>"

text \<open>Options: none; a negative \<open>maxAge\<close>; \<open>maxAge: 1000\<close>; one storage object, at address
  9, supplied as \<open>cache\<close>.\<close>

definition no_options :: options where
  "no_options = \<lparr>opt_cacheKey = None, opt_cache = None, opt_maxAge = None\<rparr>"

definition negative_maxAge :: options where
  "negative_maxAge = \<lparr>opt_cacheKey = None, opt_cache = None, opt_maxAge = Some (Fin (- 1))\<rparr>"

definition maxAge_1000 :: options where
  "maxAge_1000 = \<lparr>opt_cacheKey = None, opt_cache = None, opt_maxAge = Some (Fin 1000)\<rparr>"


text \<open>The counter of the module's documentation: \<open>let index = 0; const counter = () => ++index\<close>.
  The world is the value of \<open>index\<close>.\<close>

definition counter_body :: "nat \<Rightarrow> val \<Rightarrow> val list \<Rightarrow> (exn + val) \<times> nat" where
  "counter_body index this args = (Inr (VNum (Fin (int (Suc index)))), Suc index)"

definition counter :: "nat func" where
  "counter = Native 1 counter_body"

text \<open>A callable that throws on its first invocation and returns the number of the
  invocation afterwards; a callable that counts its invocations and returns
  \<open>undefined\<close>.\<close>

definition flaky_body :: "nat \<Rightarrow> val \<Rightarrow> val list \<Rightarrow> (exn + val) \<times> nat" where
  "flaky_body w this args =
     (if w = 0 then (Inl (Thrown (VStr ''boom'')), Suc w) else (Inr (VNum (Fin (int w))), Suc w))"

definition void_body :: "nat \<Rightarrow> val \<Rightarrow> val list \<Rightarrow> (exn + val) \<times> nat" where
  "void_body w this args = (Inr Undefined, Suc w)"

text \<open>Class members about to be decorated: the method \<open>counter() { ... }\<close> and a getter
  \<open>get x() { ... }\<close> with the flaky body.\<close>

definition counter_method :: "nat descriptor" where
  "counter_method = \<lparr>d_value = DFun counter, d_get = None\<rparr>"

definition flaky_getter :: "nat descriptor" where
  "flaky_getter = \<lparr>d_value = DVal Undefined, d_get = Some (Native 2 flaky_body)\<rparr>"

text \<open>
  A wrapper of a wrapper: \<open>wrapper1 = memoize(counter, {maxAge: 1000})\<close>,
  \<open>wrapper2 = memoize(wrapper1, {maxAge: 1000})\<close>, and the state after \<open>wrapper2('a')\<close>.
  The call misses in both storages, so each wrapper stores an item and schedules a timer,
  recorded under the identity of the function it wraps. Then the state after
  \<open>memoizeClear(wrapper1)\<close> and a new call \<open>wrapper1('a')\<close>.
\<close>

definition wrapper1 :: "nat func" where
  "wrapper1 = Memoized 0 counter None 0 (Some (Fin 1000))"

definition wrapper2 :: "nat func" where
  "wrapper2 = Memoized 1 wrapper1 None 1 (Some (Fin 1000))"

definition nested_state :: "nat state" where
  "nested_state =
     snd (call wrapper2 Undefined [VStr ''a'']
            (snd (memoize wrapper1 maxAge_1000 (snd (memoize counter maxAge_1000 (initial 0))))))"

definition recomputed_state :: "nat state" where
  "recomputed_state =
     snd (call wrapper1 Undefined [VStr ''a''] (snd (memoizeClear wrapper1 nested_state)))"

text \<open>Two pure callables with distinguishable results, and the state in which the first
  was memoized with no options and its wrapper was called once with \<open>'x'\<close>.\<close>

definition from_f :: "unit func" where
  "from_f = pure_callable 7 (\<lambda>this args. VStr ''from f'')"

definition after_f :: "unit state" where
  "after_f =
     snd (call (Memoized 0 from_f None 0 None) Undefined [VStr ''x'']
            (snd (memoize from_f no_options (initial ()))))"

text \<open>The options \<open>{maxAge: 0}\<close>, and a state whose storage object at address 9 already
  holds an entry under \<open>'x'\<close> before it is handed to \<open>memoize\<close> as \<open>cache\<close>.\<close>

definition zero_maxAge :: options where
  "zero_maxAge = \<lparr>opt_cacheKey = None, opt_cache = None, opt_maxAge = Some (Fin 0)\<rparr>"

definition prepopulated :: "unit state" where
  "prepopulated =
     (initial ())\<lparr>caches := (caches (initial ()))
        (9 := \<lparr>entries = [VStr ''x'' \<mapsto> \<lparr>data = VStr ''old'', maxAge = PosInf\<rparr>], has_clear = True\<rparr>),
        next_cache := 10\<rparr>"

text \<open>
  Two members that return a name and a size. Reads of a decorated getter on the objects
  5 and 6; in between a timer period passes, \<open>memoizeDecorator\<close> is called again and the
  getter that the new decorator installs for the size is read on the object 5. The
  states in which \<open>@memoizeDecorator({maxAge: 1000})\<close> was applied to the flaky getter,
  in either build. A state in which the object 5 is sealed.
\<close>

definition name_getter :: "nat func" where
  "name_getter = pure_callable 11 (\<lambda>this args. VStr ''name'')"

definition size_getter :: "nat func" where
  "size_getter = pure_callable 12 (\<lambda>this args. VNum (Fin 3))"

definition getter_events :: "nat event list" where
  "getter_events =
     [Use 5 [], Use 5 [], Elsewhere (advance_clock 5000),
      Elsewhere (\<lambda>s. snd (memoizeDecorator no_options s)),
      Elsewhere (\<lambda>s. snd (decorated_get 1 size_getter 5 s)), Use 6 []]"

definition getter_decorated :: "nat state" where
  "getter_decorated = snd (memoizeDecorator maxAge_1000 (initial 0))"

definition getter_decorated_dist :: "nat state" where
  "getter_decorated_dist =
     snd (apply_decorator_dist (memoizeDecorator_dist maxAge_1000) flaky_getter (initial 0))"

definition sealed_receiver :: "nat state" where
  "sealed_receiver = (initial 0)\<lparr>extensible := (\<lambda>x. x \<noteq> 5)\<rparr>"






section \<open>Properties of the wrapper\<close>

subsection \<open>One call of a memoized closure\<close>

lemma call_Memoized_hit:
  "cache_get c (derive_key ck args) s = Some it \<Longrightarrow>
   call (Memoized m f ck c ma) this args s = (Inr (data it), s)"
  by simp

lemma call_Memoized_miss_ok:
  "cache_get c (derive_key ck args) s = None \<Longrightarrow> call f this args s = (Inr v, s1) \<Longrightarrow>
   call (Memoized m f ck c ma) this args s =
     (Inr v, schedule_eviction (identity f) c (derive_key ck args) ma
               (cache_set c (derive_key ck args) \<lparr>data = v, maxAge = expiry ma (now s1)\<rparr> s1))"
  by (simp add: Let_def)

lemma call_Memoized_miss_err:
  "cache_get c (derive_key ck args) s = None \<Longrightarrow> call f this args s = (Inl e, s1) \<Longrightarrow>
   call (Memoized m f ck c ma) this args s = (Inl e, s1)"
  by simp

lemma cache_get_cache_set:
  "cache_get c key (cache_set c' key' it s) = (if c = c' \<and> key = key' then Some it else cache_get c key s)"
  by (simp add: cache_get_def cache_set_def)

lemma caches_schedule_eviction: "caches (schedule_eviction fid c key ma s) = caches s"
  by (simp add: schedule_eviction_def setTimeout_def Let_def split: option.splits)

lemma calls_schedule_eviction: "calls (schedule_eviction fid c key ma s) = calls s"
  by (simp add: schedule_eviction_def setTimeout_def Let_def split: option.splits)

lemma world_schedule_eviction: "world (schedule_eviction fid c key ma s) = world s"
  by (simp add: schedule_eviction_def setTimeout_def Let_def split: option.splits)

lemma cache_get_schedule_eviction:
  "cache_get c key (schedule_eviction fid c' key' ma s) = cache_get c key s"
  by (simp add: cache_get_def caches_schedule_eviction)

lemma calls_cache_set: "calls (cache_set c key it s) = calls s"
  by (simp add: cache_set_def)

lemma call_pure_callable:
  "call (pure_callable n g) this args s = (Inr (g this args), s\<lparr>calls := calls s @ [(n, this, args)]\<rparr>)"
  by (simp add: pure_callable_def)

lemma memoize_wraps:
  assumes "memoize f opts s0 = (Inr wrapped, s1)" and "opt_maxAge opts \<noteq> Some (Fin 0)"
  shows "\<exists>c. wrapped = Memoized (next_fn s0) f (opt_cacheKey opts) c (opt_maxAge opts) \<and> cacheStore s1 (Wrap (next_fn s0)) = Some c"
  using assms
  by (auto simp: memoize_def Let_def new_Map_def split: option.splits if_splits prod.splits)

lemma memoized_pure_miss:
  assumes miss: "cache_get c (derive_key ck args) s = None"
  shows "\<exists>s'. call (Memoized m (pure_callable n g) ck c ma) this args s = (Inr (g this args), s') \<and>
              calls s' = calls s @ [(n, this, args)] \<and>
              cache_get c (derive_key ck args) s' =
                 Some \<lparr>data = g this args, maxAge = expiry ma (now s)\<rparr>"
proof -
  let ?s1 = "s\<lparr>calls := calls s @ [(n, this, args)]\<rparr>"
  let ?key = "derive_key ck args"
  let ?s' = "schedule_eviction (identity (pure_callable n g :: 'a func)) c ?key ma
               (cache_set c ?key \<lparr>data = g this args, maxAge = expiry ma (now ?s1)\<rparr> ?s1)"
  have "call (Memoized m (pure_callable n g) ck c ma) this args s = (Inr (g this args), ?s')"
    using miss call_pure_callable [of n g this args s] by (rule call_Memoized_miss_ok)
  moreover have "calls ?s' = calls s @ [(n, this, args)]"
    by (simp add: calls_schedule_eviction calls_cache_set)
  moreover have "cache_get c ?key ?s' = Some \<lparr>data = g this args, maxAge = expiry ma (now s)\<rparr>"
    by (simp add: cache_get_schedule_eviction cache_get_cache_set)
  ultimately show ?thesis by blast
qed

lemma memoized_wrapper_behaviour:
  assumes "memoize (pure_callable n g) opts s0 = (Inr wrapped, s1)"
      and "opt_maxAge opts \<noteq> Some (Fin 0)"
  shows "\<exists>m c. wrapped = Memoized m (pure_callable n g) (opt_cacheKey opts) c (opt_maxAge opts) \<and>
     (\<forall>s this args it.
        cache_get c (derive_key (opt_cacheKey opts) args) s = Some it \<longrightarrow>
        call wrapped this args s = (Inr (data it), s)) \<and>
     (\<forall>s this args.
        cache_get c (derive_key (opt_cacheKey opts) args) s = None \<longrightarrow>
        (\<exists>s'. call wrapped this args s = (Inr (g this args), s') \<and>
              calls s' = calls s @ [(n, this, args)] \<and>
              cache_get c (derive_key (opt_cacheKey opts) args) s' =
                 Some \<lparr>data = g this args, maxAge = expiry (opt_maxAge opts) (now s)\<rparr> \<and>
              (\<forall>this' args'.
                 derive_key (opt_cacheKey opts) args' = derive_key (opt_cacheKey opts) args \<longrightarrow>
                 call wrapped this' args' s' = (Inr (g this args), s'))))"
proof -
  from memoize_wraps [OF assms] obtain c where
    w: "wrapped = Memoized (next_fn s0) (pure_callable n g) (opt_cacheKey opts) c (opt_maxAge opts)"
    by blast
  let ?ck = "opt_cacheKey opts"
  have hit: "\<forall>s this args it. cache_get c (derive_key ?ck args) s = Some it \<longrightarrow>
        call wrapped this args s = (Inr (data it), s)"
    unfolding w by (intro allI impI) (rule call_Memoized_hit)
  have miss: "\<forall>s this args.
        cache_get c (derive_key ?ck args) s = None \<longrightarrow>
        (\<exists>s'. call wrapped this args s = (Inr (g this args), s') \<and>
              calls s' = calls s @ [(n, this, args)] \<and>
              cache_get c (derive_key ?ck args) s' =
                 Some \<lparr>data = g this args, maxAge = expiry (opt_maxAge opts) (now s)\<rparr> \<and>
              (\<forall>this' args'.
                 derive_key ?ck args' = derive_key ?ck args \<longrightarrow>
                 call wrapped this' args' s' = (Inr (g this args), s')))"
  proof (intro allI impI)
    fix s :: "'a state" and this args
    assume m: "cache_get c (derive_key ?ck args) s = None"
    from memoized_pure_miss [OF m, of "next_fn s0" n g "opt_maxAge opts" this]
    obtain s' where
      c1: "call wrapped this args s = (Inr (g this args), s')" and
      c2: "calls s' = calls s @ [(n, this, args)]" and
      c3: "cache_get c (derive_key ?ck args) s' =
             Some \<lparr>data = g this args, maxAge = expiry (opt_maxAge opts) (now s)\<rparr>"
      unfolding w by blast
    have "\<forall>this' args'. derive_key ?ck args' = derive_key ?ck args \<longrightarrow>
            call wrapped this' args' s' = (Inr (g this args), s')"
    proof (intro allI impI)
      fix this' args'
      assume k: "derive_key ?ck args' = derive_key ?ck args"
      from c3 k have "cache_get c (derive_key ?ck args') s' =
             Some \<lparr>data = g this args, maxAge = expiry (opt_maxAge opts) (now s)\<rparr>" by simp
      from hit [rule_format, OF this, of this'] show "call wrapped this' args' s' = (Inr (g this args), s')"
        by simp
    qed
    with c1 c2 c3 show "\<exists>s'. call wrapped this args s = (Inr (g this args), s') \<and>
              calls s' = calls s @ [(n, this, args)] \<and>
              cache_get c (derive_key ?ck args) s' =
                 Some \<lparr>data = g this args, maxAge = expiry (opt_maxAge opts) (now s)\<rparr> \<and>
              (\<forall>this' args'.
                 derive_key ?ck args' = derive_key ?ck args \<longrightarrow>
                 call wrapped this' args' s' = (Inr (g this args), s'))"
      by blast
  qed
  from w hit miss show ?thesis by blast
qed



lemma memoize_storage:
  assumes "memoize f opts s0 = (Inr wrapped, s1)" and "opt_maxAge opts \<noteq> Some (Fin 0)"
  shows "\<exists>c. wrapped = Memoized (next_fn s0) f (opt_cacheKey opts) c (opt_maxAge opts) \<and>
           cacheStore s1 (identity wrapped) = Some c \<and> calls s1 = calls s0 \<and>
           (opt_cache opts = None \<longrightarrow>
              c = next_cache s0 \<and> next_cache s1 = Suc (next_cache s0) \<and>
              entries (caches s1 c) = Map.empty \<and>
              (\<forall>c'. c' \<noteq> c \<longrightarrow> caches s1 c' = caches s0 c')) \<and>
           (\<forall>cu. opt_cache opts = Some cu \<longrightarrow> c = cu \<and> caches s1 = caches s0)"
  using assms
  by (auto simp: memoize_def Let_def new_Map_def split: option.splits if_splits prod.splits)

text \<open>
  Claim C1, as the code has it. Let \<open>memoize\<close> wrap a pure callable with a \<open>maxAge\<close> other than \<open>0\<close>, in any
  state of the module. The wrapper derives the key with \<open>cacheKey\<close> when one is configured
  and from the first argument otherwise, and it is registered with its storage: the
  supplied \<open>cache\<close>, untouched, or else a new \<open>Map\<close> that is empty and is no storage that
  existed before, every one of which keeps its contents. When the storage holds an item
  under the key, a call returns the item's data and changes nothing, so the original is
  not invoked. Otherwise the original is invoked once with the receiver and arguments of
  the call, its result is returned and is stored under the key; from then on a call whose
  arguments give the same key returns that stored value and again changes nothing. In the
  state \<open>memoize\<close> returned, the first call of the wrapper therefore invokes the original
  and returns its result whenever no \<open>cache\<close> was supplied, or the supplied one held
  nothing under the key.
\<close>

theorem memoized_lookup_or_compute:
  assumes "memoize (pure_callable n g) opts s0 = (Inr wrapped, s1)"
      and "opt_maxAge opts \<noteq> Some (Fin 0)"
  shows "(\<forall>ck args. opt_cacheKey opts = Some ck \<longrightarrow> derive_key (opt_cacheKey opts) args = ck args) \<and>
     (opt_cacheKey opts = None \<longrightarrow>
        derive_key (opt_cacheKey opts) [] = Undefined \<and>
        (\<forall>a rest. derive_key (opt_cacheKey opts) (a # rest) = a)) \<and>
     (\<exists>m c. wrapped = Memoized m (pure_callable n g) (opt_cacheKey opts) c (opt_maxAge opts) \<and>
        cacheStore s1 (identity wrapped) = Some c \<and>
        (opt_cache opts = None \<longrightarrow>
           c = next_cache s0 \<and> next_cache s1 = Suc (next_cache s0) \<and>
           entries (caches s1 c) = Map.empty \<and>
           (\<forall>c'. c' \<noteq> c \<longrightarrow> caches s1 c' = caches s0 c')) \<and>
        (\<forall>cu. opt_cache opts = Some cu \<longrightarrow> c = cu \<and> caches s1 = caches s0) \<and>
        (\<forall>s this args it.
           cache_get c (derive_key (opt_cacheKey opts) args) s = Some it \<longrightarrow>
           call wrapped this args s = (Inr (data it), s)) \<and>
        (\<forall>s this args.
           cache_get c (derive_key (opt_cacheKey opts) args) s = None \<longrightarrow>
           (\<exists>s'. call wrapped this args s = (Inr (g this args), s') \<and>
                 calls s' = calls s @ [(n, this, args)] \<and>
                 cache_get c (derive_key (opt_cacheKey opts) args) s' =
                    Some \<lparr>data = g this args, maxAge = expiry (opt_maxAge opts) (now s)\<rparr> \<and>
                 (\<forall>this' args'.
                    derive_key (opt_cacheKey opts) args' = derive_key (opt_cacheKey opts) args \<longrightarrow>
                    call wrapped this' args' s' = (Inr (g this args), s'))))) \<and>
     (\<forall>this args.
        opt_cache opts = None \<or>
        (\<exists>cu. opt_cache opts = Some cu \<and>
              cache_get cu (derive_key (opt_cacheKey opts) args) s0 = None) \<longrightarrow>
        (\<exists>s'. call wrapped this args s1 = (Inr (g this args), s') \<and>
              calls s' = calls s0 @ [(n, this, args)] \<and>
              (\<forall>this' args'.
                 derive_key (opt_cacheKey opts) args' = derive_key (opt_cacheKey opts) args \<longrightarrow>
                 call wrapped this' args' s' = (Inr (g this args), s'))))"
proof -
  let ?ck = "opt_cacheKey opts"
  from memoized_wrapper_behaviour [OF assms] obtain m c where
    w: "wrapped = Memoized m (pure_callable n g) ?ck c (opt_maxAge opts)" and
    hit: "\<forall>s this args it.
           cache_get c (derive_key ?ck args) s = Some it \<longrightarrow>
           call wrapped this args s = (Inr (data it), s)" and
    miss: "\<forall>s this args.
           cache_get c (derive_key ?ck args) s = None \<longrightarrow>
           (\<exists>s'. call wrapped this args s = (Inr (g this args), s') \<and>
                 calls s' = calls s @ [(n, this, args)] \<and>
                 cache_get c (derive_key ?ck args) s' =
                    Some \<lparr>data = g this args, maxAge = expiry (opt_maxAge opts) (now s)\<rparr> \<and>
                 (\<forall>this' args'.
                    derive_key ?ck args' = derive_key ?ck args \<longrightarrow>
                    call wrapped this' args' s' = (Inr (g this args), s')))"
    by blast
  from memoize_storage [OF assms] w have
    st: "cacheStore s1 (identity wrapped) = Some c" and
    lg: "calls s1 = calls s0" and
    dflt: "opt_cache opts = None \<longrightarrow>
             c = next_cache s0 \<and> next_cache s1 = Suc (next_cache s0) \<and>
             entries (caches s1 c) = Map.empty \<and>
             (\<forall>c'. c' \<noteq> c \<longrightarrow> caches s1 c' = caches s0 c')" and
    supplied: "\<forall>cu. opt_cache opts = Some cu \<longrightarrow> c = cu \<and> caches s1 = caches s0"
    by auto
  have first: "\<exists>s'. call wrapped this args s1 = (Inr (g this args), s') \<and>
              calls s' = calls s0 @ [(n, this, args)] \<and>
              (\<forall>this' args'.
                 derive_key ?ck args' = derive_key ?ck args \<longrightarrow>
                 call wrapped this' args' s' = (Inr (g this args), s'))"
    if h: "opt_cache opts = None \<or>
           (\<exists>cu. opt_cache opts = Some cu \<and> cache_get cu (derive_key ?ck args) s0 = None)"
    for this args
  proof -
    have "cache_get c (derive_key ?ck args) s1 = None"
      using h dflt supplied by (auto simp: cache_get_def)
    with miss obtain s' where
      "call wrapped this args s1 = (Inr (g this args), s')"
      "calls s' = calls s1 @ [(n, this, args)]"
      "\<forall>this' args'.
          derive_key ?ck args' = derive_key ?ck args \<longrightarrow>
          call wrapped this' args' s' = (Inr (g this args), s')"
      by blast
    with lg show ?thesis by simp
  qed
  have k1: "\<forall>ck args. opt_cacheKey opts = Some ck \<longrightarrow> derive_key ?ck args = ck args"
    by (simp add: derive_key_def)
  have k2: "opt_cacheKey opts = None \<longrightarrow>
        derive_key ?ck [] = Undefined \<and> (\<forall>a rest. derive_key ?ck (a # rest) = a)"
    by (simp add: derive_key_def)
  have W: "\<exists>m c. wrapped = Memoized m (pure_callable n g) ?ck c (opt_maxAge opts) \<and>
        cacheStore s1 (identity wrapped) = Some c \<and>
        (opt_cache opts = None \<longrightarrow>
           c = next_cache s0 \<and> next_cache s1 = Suc (next_cache s0) \<and>
           entries (caches s1 c) = Map.empty \<and>
           (\<forall>c'. c' \<noteq> c \<longrightarrow> caches s1 c' = caches s0 c')) \<and>
        (\<forall>cu. opt_cache opts = Some cu \<longrightarrow> c = cu \<and> caches s1 = caches s0) \<and>
        (\<forall>s this args it.
           cache_get c (derive_key ?ck args) s = Some it \<longrightarrow>
           call wrapped this args s = (Inr (data it), s)) \<and>
        (\<forall>s this args.
           cache_get c (derive_key ?ck args) s = None \<longrightarrow>
           (\<exists>s'. call wrapped this args s = (Inr (g this args), s') \<and>
                 calls s' = calls s @ [(n, this, args)] \<and>
                 cache_get c (derive_key ?ck args) s' =
                    Some \<lparr>data = g this args, maxAge = expiry (opt_maxAge opts) (now s)\<rparr> \<and>
                 (\<forall>this' args'.
                    derive_key ?ck args' = derive_key ?ck args \<longrightarrow>
                    call wrapped this' args' s' = (Inr (g this args), s'))))"
    by (rule exI [of _ m], rule exI [of _ c], intro conjI) (fact w st dflt supplied hit miss)+
  from k1 k2 W first show ?thesis by blast
qed

lemma after_f_facts:
  "calls after_f = [(7, Undefined, [VStr ''x''])]"
  "next_fn after_f = 1" "next_cache after_f = 1"
  "cache_get 0 (VStr ''x'') after_f =
     Some \<lparr>data = VStr ''from f'', maxAge = PosInf\<rparr>"
  by (simp_all add: after_f_def from_f_def pure_callable_def memoize_def no_options_def
        initial_def new_Map_def cache_get_def cache_set_def derive_key_def expiry_def
        schedule_eviction_def Let_def)

theorem memoized_lookup_or_compute_witness:
  "memoize (pure_callable 8 (\<lambda>this args. VStr ''from g'')) no_options after_f =
     (Inr (Memoized 1 (pure_callable 8 (\<lambda>this args. VStr ''from g'')) None 1 None),
      snd (memoize (pure_callable 8 (\<lambda>this args. VStr ''from g'')) no_options after_f)) \<and>
   opt_maxAge no_options \<noteq> Some (Fin 0) \<and> opt_cache no_options = None \<and>
   cache_get 0 (VStr ''x'') after_f = Some \<lparr>data = VStr ''from f'', maxAge = PosInf\<rparr> \<and>
   (\<exists>s'. call (Memoized 1 (pure_callable 8 (\<lambda>this args. VStr ''from g'')) None 1 None)
            Undefined [VStr ''x'']
            (snd (memoize (pure_callable 8 (\<lambda>this args. VStr ''from g'')) no_options after_f)) =
           (Inr (VStr ''from g''), s') \<and>
         calls s' = [(7, Undefined, [VStr ''x'']), (8, Undefined, [VStr ''x''])] \<and>
         call (Memoized 1 (pure_callable 8 (\<lambda>this args. VStr ''from g'')) None 1 None)
            Undefined [VStr ''x'', VNum (Fin 2)] s' = (Inr (VStr ''from g''), s'))"
proof -
  let ?g = "pure_callable 8 (\<lambda>this args. VStr ''from g'') :: unit func"
  let ?w = "Memoized 1 ?g None 1 None"
  let ?s1 = "snd (memoize ?g no_options after_f)"
  have h1: "memoize ?g no_options after_f = (Inr ?w, ?s1)"
    by (simp add: memoize_def no_options_def after_f_facts new_Map_def Let_def)
  have h2: "opt_maxAge no_options \<noteq> Some (Fin 0)" by (simp add: no_options_def)
  have h3: "opt_cache no_options = None" by (simp add: no_options_def)
  note t = memoized_lookup_or_compute [OF h1 h2, THEN conjunct2, THEN conjunct2, THEN conjunct2,
             THEN spec [where x = Undefined], THEN spec [where x = "[VStr ''x'']"],
             THEN mp, OF disjI1, OF h3]
  then obtain s' where
    a: "call ?w Undefined [VStr ''x''] ?s1 = (Inr (VStr ''from g''), s')" and
    b: "calls s' = calls after_f @ [(8, Undefined, [VStr ''x''])]" and
    d: "\<forall>this' args'.
          derive_key (opt_cacheKey no_options) args' = derive_key (opt_cacheKey no_options) [VStr ''x''] \<longrightarrow>
          call ?w this' args' s' = (Inr (VStr ''from g''), s')"
    by blast
  have k: "derive_key (opt_cacheKey no_options) [VStr ''x'', VNum (Fin 2)] =
           derive_key (opt_cacheKey no_options) [VStr ''x'']"
    by (simp add: derive_key_def no_options_def)
  from d [rule_format, OF k, of Undefined]
  have e: "call ?w Undefined [VStr ''x'', VNum (Fin 2)] s' = (Inr (VStr ''from g''), s')" .
  from b have b': "calls s' = [(7, Undefined, [VStr ''x'']), (8, Undefined, [VStr ''x''])]"
    by (simp add: after_f_facts)
  from h1 h2 h3 after_f_facts(4) a b' e show ?thesis by blast
qed

text \<open>
  Claim C1 as stated covers every call of what \<open>memoize\<close> returned, and has the first
  call return the result of the callable. Two cases in which it is not so. With
  \<open>maxAge: 0\<close> the result is the callable itself: two calls with the same argument invoke
  it twice and nothing is stored. With a supplied \<open>cache\<close> that already holds an entry
  under the key, the first call returns that entry's data and the callable is not
  invoked.
\<close>

theorem memoize_without_storing:
  "fst (memoize from_f zero_maxAge (initial ())) = Inr from_f \<and>
   calls (snd (call from_f Undefined [VStr ''x'']
            (snd (call from_f Undefined [VStr ''x'']
               (snd (memoize from_f zero_maxAge (initial ()))))))) =
     [(7, Undefined, [VStr ''x'']), (7, Undefined, [VStr ''x''])] \<and>
   cache_get 0 (VStr ''x'')
      (snd (call from_f Undefined [VStr ''x''] (snd (memoize from_f zero_maxAge (initial ()))))) =
     None \<and>
   fst (memoize from_f (no_options\<lparr>opt_cache := Some 9\<rparr>) prepopulated) =
     Inr (Memoized 0 from_f None 9 None) \<and>
   call (Memoized 0 from_f None 9 None) Undefined [VStr ''x'']
      (snd (memoize from_f (no_options\<lparr>opt_cache := Some 9\<rparr>) prepopulated)) =
     (Inr (VStr ''old''), snd (memoize from_f (no_options\<lparr>opt_cache := Some 9\<rparr>) prepopulated))"
  by (simp add: from_f_def pure_callable_def memoize_def zero_maxAge_def no_options_def
        initial_def prepopulated_def new_Map_def cache_get_def derive_key_def Let_def)

lemma call_Native:
  "body (world s) this args = (r, w) \<Longrightarrow>
   call (Native n body) this args s = (r, s\<lparr>world := w, calls := calls s @ [(n, this, args)]\<rparr>)"
  by simp

lemma calls_call_Native:
  "calls (snd (call (Native n body) this args s)) = calls s @ [(n, this, args)]"
  by (simp add: Let_def split: prod.splits)

subsection \<open>The pass-through for \<open>maxAge: 0\<close>\<close>

text \<open>
  Claim C3. With \<open>maxAge: 0\<close>, \<open>memoize\<close> returns the callable it was given, the very
  same function value, and registers nothing: \<open>cacheStore\<close>, \<open>cacheTimerStore\<close> and the
  timers are as before, and no storage object that existed is touched (the only effect
  is the \<open>Map\<close> created for the default of \<open>cache\<close>, which nothing refers to). Calling
  the result is calling the original, so an original callable is invoked on every call.
\<close>

theorem memoize_maxAge_zero_passthrough:
  assumes "opt_maxAge opts = Some (Fin 0)"
  shows "\<exists>s'. memoize f opts s = (Inr f, s') \<and>
           cacheStore s' = cacheStore s \<and> cacheTimerStore s' = cacheTimerStore s \<and>
           pending s' = pending s \<and> calls s' = calls s \<and> world s' = world s \<and>
           (\<forall>c. c \<noteq> next_cache s \<longrightarrow> caches s' c = caches s c) \<and>
           (\<forall>n body this args s1. f = Native n body \<longrightarrow>
              calls (snd (call f this args s1)) = calls s1 @ [(n, this, args)])"
proof (cases "opt_cache opts")
  case None
  with assms have "memoize f opts s = (Inr f, snd (new_Map s))"
    by (simp add: memoize_def new_Map_def Let_def)
  then show ?thesis
    by (simp add: new_Map_def Let_def split: prod.splits)
next
  case (Some c)
  with assms have "memoize f opts s = (Inr f, s)"
    by (simp add: memoize_def Let_def)
  then show ?thesis
    by (simp add: Let_def split: prod.splits)
qed

theorem memoize_maxAge_zero_passthrough_witness:
  "opt_maxAge (no_options\<lparr>opt_maxAge := Some (Fin 0)\<rparr>) = Some (Fin 0) \<and>
   fst (memoize counter (no_options\<lparr>opt_maxAge := Some (Fin 0)\<rparr>) (initial 0)) = Inr counter \<and>
   (\<forall>this args s1. calls (snd (call counter this args s1)) = calls s1 @ [(1, this, args)])"
proof -
  have h: "opt_maxAge (no_options\<lparr>opt_maxAge := Some (Fin 0)\<rparr>) = Some (Fin 0)" by simp
  from memoize_maxAge_zero_passthrough [OF h, of counter "initial 0"]
  show ?thesis using h by (auto simp: counter_def)
qed

subsection \<open>Failures of the original\<close>



subsection \<open>Errors of \<open>memoizeClear\<close>\<close>

text \<open>
  Claim C6. \<open>memoizeClear(fn)\<close> throws the \<open>TypeError\<close> for a function that was not
  memoized when \<open>cacheStore\<close> has no storage for the identity of \<open>fn\<close>, and the
  \<open>TypeError\<close> for a storage that cannot be cleared when the associated storage has no
  \<open>clear\<close>. In both cases the state, with the storages and the timers, is unchanged.
\<close>

theorem memoizeClear_errors:
  "(cacheStore s (identity f) = None \<longrightarrow>
      memoizeClear f s = (Inl (TypeError ''Can't clear a function that was not memoized!''), s)) \<and>
   (\<forall>c. cacheStore s (identity f) = Some c \<and> \<not> has_clear (caches s c) \<longrightarrow>
      memoizeClear f s = (Inl (TypeError ''The cache Map can't be cleared!''), s))"
  by (simp add: memoizeClear_def)

theorem memoizeClear_errors_witness:
  "cacheStore (initial ()) (identity (pure_callable 7 (\<lambda>this args. Null) :: unit func)) = None \<and>
   memoizeClear (pure_callable 7 (\<lambda>this args. Null)) (initial ()) =
     (Inl (TypeError ''Can't clear a function that was not memoized!''), initial ()) \<and>
   fst (memoize (pure_callable 7 (\<lambda>this args. Null)) (no_options\<lparr>opt_cache := Some 5\<rparr>)
          with_unclearable) = Inr (Memoized 0 (pure_callable 7 (\<lambda>this args. Null)) None 5 None) \<and>
   cacheStore (snd (memoize (pure_callable 7 (\<lambda>this args. Null))
                      (no_options\<lparr>opt_cache := Some 5\<rparr>) with_unclearable))
     (identity (Memoized 0 (pure_callable 7 (\<lambda>this args. Null) :: unit func) None 5 None)) = Some 5 \<and>
   \<not> has_clear (caches (snd (memoize (pure_callable 7 (\<lambda>this args. Null))
                      (no_options\<lparr>opt_cache := Some 5\<rparr>) with_unclearable)) 5) \<and>
   fst (memoizeClear (Memoized 0 (pure_callable 7 (\<lambda>this args. Null)) None 5 None)
         (snd (memoize (pure_callable 7 (\<lambda>this args. Null))
                      (no_options\<lparr>opt_cache := Some 5\<rparr>) with_unclearable))) =
     Inl (TypeError ''The cache Map can't be cleared!'')"
proof -
  let ?f = "pure_callable 7 (\<lambda>this args. Null) :: unit func"
  let ?w = "Memoized 0 ?f None 5 None"
  let ?s = "snd (memoize ?f (no_options\<lparr>opt_cache := Some 5\<rparr>) with_unclearable)"
  have h1: "cacheStore (initial ()) (identity ?f) = None"
    by (simp add: initial_def pure_callable_def)
  have m: "fst (memoize ?f (no_options\<lparr>opt_cache := Some 5\<rparr>) with_unclearable) = Inr ?w"
    by (simp add: memoize_def no_options_def with_unclearable_def initial_def Let_def)
  have h2: "cacheStore ?s (identity ?w) = Some 5 \<and> \<not> has_clear (caches ?s 5)"
    by (simp add: memoize_def no_options_def with_unclearable_def initial_def Let_def)
  from memoizeClear_errors [of "initial ()" ?f] h1
  have a: "memoizeClear ?f (initial ()) =
     (Inl (TypeError ''Can't clear a function that was not memoized!''), initial ())" by blast
  from memoizeClear_errors [of ?s ?w] h2
  have "memoizeClear ?w ?s = (Inl (TypeError ''The cache Map can't be cleared!''), ?s)" by blast
  then have b: "fst (memoizeClear ?w ?s) = Inl (TypeError ''The cache Map can't be cleared!'')"
    by simp
  from h1 a m h2 b show ?thesis by blast
qed

subsection \<open>No freshness check on a hit\<close>

text \<open>
  Claim C7. A call whose key is present in the storage returns the stored data and
  changes nothing, also when the expiry instant recorded in the item lies before the
  current clock: the item is returned as long as the eviction timer has not deleted it.
\<close>

theorem hit_ignores_expiry:
  assumes "cache_get c (derive_key ck args) s = Some it"
      and "maxAge it = Fin e" and "e < now s"
  shows "call (Memoized m f ck c ma) this args s = (Inr (data it), s)"
  using assms(1) by (rule call_Memoized_hit)

theorem hit_ignores_expiry_witness:
  "cache_get 0 (derive_key None [VStr ''foo''])
     (advance_clock 5000 (snd (call (Memoized 0 counter None 0 (Some (Fin 1000))) Undefined
                                 [VStr ''foo''] (initial 0)))) =
     Some \<lparr>data = VNum (Fin 1), maxAge = Fin 1000\<rparr> \<and>
   maxAge \<lparr>data = VNum (Fin 1), maxAge = Fin 1000\<rparr> = Fin 1000 \<and>
   1000 < now (advance_clock 5000 (snd (call (Memoized 0 counter None 0 (Some (Fin 1000))) Undefined
                                 [VStr ''foo''] (initial 0)))) \<and>
   pending (advance_clock 5000 (snd (call (Memoized 0 counter None 0 (Some (Fin 1000))) Undefined
                                 [VStr ''foo''] (initial 0)))) 0 =
     Some \<lparr>t_cache = 0, t_key = VStr ''foo'', t_delay = Fin 1000\<rparr> \<and>
   call (Memoized 0 counter None 0 (Some (Fin 1000))) Undefined [VStr ''foo'']
     (advance_clock 5000 (snd (call (Memoized 0 counter None 0 (Some (Fin 1000))) Undefined
                                 [VStr ''foo''] (initial 0)))) =
     (Inr (VNum (Fin 1)),
      advance_clock 5000 (snd (call (Memoized 0 counter None 0 (Some (Fin 1000))) Undefined
                                 [VStr ''foo''] (initial 0))))"
proof -
  let ?W = "Memoized 0 counter None 0 (Some (Fin 1000))"
  let ?s = "advance_clock 5000 (snd (call ?W Undefined [VStr ''foo''] (initial 0)))"
  let ?it = "\<lparr>data = VNum (Fin 1), maxAge = Fin 1000\<rparr>"
  have h1: "cache_get 0 (derive_key None [VStr ''foo'']) ?s = Some ?it"
    by (simp add: counter_def counter_body_def initial_def advance_clock_def cache_get_def cache_set_def
          derive_key_def expiry_def schedule_eviction_def setTimeout_def set_add_def Let_def)
  have h2: "maxAge ?it = Fin 1000" by simp
  have h3: "1000 < now ?s"
    by (simp add: counter_def counter_body_def initial_def advance_clock_def cache_get_def cache_set_def
          derive_key_def expiry_def schedule_eviction_def setTimeout_def set_add_def Let_def)
  have p: "pending ?s 0 = Some \<lparr>t_cache = 0, t_key = VStr ''foo'', t_delay = Fin 1000\<rparr>"
    by (simp add: counter_def counter_body_def initial_def advance_clock_def cache_get_def cache_set_def
          derive_key_def expiry_def schedule_eviction_def setTimeout_def set_add_def Let_def)
  from hit_ignores_expiry [OF h1 h2 h3, of 0 counter "Some (Fin 1000)" Undefined]
  have "call ?W Undefined [VStr ''foo''] ?s = (Inr (VNum (Fin 1)), ?s)" by simp
  with h1 h2 h3 p show ?thesis by blast
qed

subsection \<open>Falsy results\<close>

text \<open>
  Claim C10. When the original callable returns a falsy value on a miss, that value is
  stored like any other, and a repeated call with the same derived key returns it from
  the storage without invoking the original again: a hit is the presence of the item,
  whatever its data.
\<close>

theorem falsy_result_is_cached:
  assumes miss: "cache_get c (derive_key ck args) s = None"
      and returns: "body (world s) this args = (Inr v, w)"
      and falsy: "\<not> truthy v"
  shows "\<exists>s'. call (Memoized m (Native n body) ck c ma) this args s = (Inr v, s') \<and>
           calls s' = calls s @ [(n, this, args)] \<and>
           (\<exists>it. cache_get c (derive_key ck args) s' = Some it \<and> data it = v) \<and>
           (\<forall>this' args'. derive_key ck args' = derive_key ck args \<longrightarrow>
              call (Memoized m (Native n body) ck c ma) this' args' s' = (Inr v, s'))"
proof -
  let ?s1 = "s\<lparr>world := w, calls := calls s @ [(n, this, args)]\<rparr>"
  let ?key = "derive_key ck args"
  let ?it = "\<lparr>data = v, maxAge = expiry ma (now ?s1)\<rparr>"
  let ?s' = "schedule_eviction (identity (Native n body)) c ?key ma (cache_set c ?key ?it ?s1)"
  let ?W = "Memoized m (Native n body) ck c ma"
  have "call (Native n body) this args s = (Inr v, ?s1)"
    using returns by simp
  with miss have first: "call ?W this args s = (Inr v, ?s')"
    by (rule call_Memoized_miss_ok)
  have stored: "cache_get c ?key ?s' = Some ?it"
    by (simp add: cache_get_schedule_eviction cache_get_cache_set)
  have log: "calls ?s' = calls s @ [(n, this, args)]"
    by (simp add: calls_schedule_eviction calls_cache_set)
  have again: "call ?W this' args' ?s' = (Inr v, ?s')"
    if k: "derive_key ck args' = derive_key ck args" for this' args'
  proof -
    from stored k have "cache_get c (derive_key ck args') ?s' = Some ?it" by simp
    from call_Memoized_hit [OF this, of m "Native n body" ma this'] show ?thesis by simp
  qed
  from first stored log again show ?thesis by auto
qed

theorem falsy_result_is_cached_witness:
  "cache_get 0 (derive_key None [VStr ''x'']) (initial (0::nat)) = None \<and>
   void_body (world (initial (0::nat))) Undefined [VStr ''x''] = (Inr Undefined, 1) \<and>
   \<not> truthy Undefined \<and>
   (\<exists>s'. call (Memoized 0 (Native 3 void_body) None 0 None) Undefined [VStr ''x''] (initial 0) =
           (Inr Undefined, s') \<and>
         calls s' = [(3, Undefined, [VStr ''x''])] \<and>
         call (Memoized 0 (Native 3 void_body) None 0 None) Undefined [VStr ''x''] s' =
           (Inr Undefined, s'))"
proof -
  let ?W = "Memoized 0 (Native 3 void_body) None 0 None"
  have h1: "cache_get 0 (derive_key None [VStr ''x'']) (initial (0::nat)) = None"
    by (simp add: cache_get_def initial_def)
  have h2: "void_body (world (initial (0::nat))) Undefined [VStr ''x''] = (Inr Undefined, 1)"
    by (simp add: void_body_def initial_def)
  have h3: "\<not> truthy Undefined" by simp
  from falsy_result_is_cached
         [where c = 0 and ck = None and args = "[VStr ''x'']" and s = "initial (0::nat)" and
                body = void_body and this = Undefined and w = 1 and m = 0 and n = 3 and
                ma = None and v = Undefined, OF h1 h2 h3]
  obtain s' where
    a: "call ?W Undefined [VStr ''x''] (initial 0) = (Inr Undefined, s')" and
    b: "calls s' = calls (initial (0::nat)) @ [(3, Undefined, [VStr ''x''])]" and
    c: "\<forall>this' args'. derive_key None args' = derive_key None [VStr ''x''] \<longrightarrow>
           call ?W this' args' s' = (Inr Undefined, s')"
    by blast
  from b have b': "calls s' = [(3, Undefined, [VStr ''x''])]" by (simp add: initial_def)
  from c have c': "call ?W Undefined [VStr ''x''] s' = (Inr Undefined, s')" by blast
  from h1 h2 h3 a b' c' show ?thesis by blast
qed

subsection \<open>A \<open>maxAge\<close> out of range\<close>

lemma memoize_out_of_range:
  assumes "opt_maxAge opts = Some n" and "out_of_range n"
  shows "memoize f opts s =
           (Inl (configuration_error n),
            case opt_cache opts of None \<Rightarrow> snd (new_Map s) | Some c \<Rightarrow> s)"
proof -
  from assms have "n \<noteq> Fin 0" by (auto simp: out_of_range_def)
  with assms show ?thesis
    by (cases "opt_cache opts")
       (auto simp: memoize_def out_of_range_def configuration_error_def maxSetIntervalValue_def
             new_Map_def Let_def)
qed

lemma new_Map_frame:
  "cacheStore (snd (new_Map s)) = cacheStore s"
  "cacheTimerStore (snd (new_Map s)) = cacheTimerStore s"
  "pending (snd (new_Map s)) = pending s"
  "next_fn (snd (new_Map s)) = next_fn s"
  "calls (snd (new_Map s)) = calls s"
  "world (snd (new_Map s)) = world s"
  "memoizedMethodsMap (snd (new_Map s)) = memoizedMethodsMap s"
  "own_methods (snd (new_Map s)) = own_methods s"
  "c \<noteq> next_cache s \<Longrightarrow> caches (snd (new_Map s)) c = caches s c"
  by (simp_all add: new_Map_def)

text \<open>
  Claim C4, as the code has it. For a \<open>maxAge\<close> that is negative or exceeds
  \<open>2_147_483_647\<close>, \<open>memoize\<close> throws its \<open>TypeError\<close> before a closure is created: no
  function identity is used up, both registries, the timers, the world and every
  existing storage are as before. \<open>memoizeDecorator\<close> with the same options returns its
  decorator, and applying the decorator fails only when the member is not a function.
  The error appears when the decorated method is called on a receiver that has no
  wrapper yet: the call throws it before the original method is invoked and remembers
  nothing for the receiver, in both builds of the decorator.
\<close>

theorem memoize_rejects_maxAge_out_of_range:
  assumes "opt_maxAge opts = Some n" and "out_of_range n"
  shows "(\<exists>s'. memoize f opts s = (Inl (configuration_error n), s') \<and>
            next_fn s' = next_fn s \<and> cacheStore s' = cacheStore s \<and>
            cacheTimerStore s' = cacheTimerStore s \<and> pending s' = pending s \<and>
            calls s' = calls s \<and> world s' = world s \<and>
            (\<forall>c. c \<noteq> next_cache s \<longrightarrow> caches s' c = caches s c)) \<and>
         memoizeDecorator opts s =
           (Decorator (next_decorator s) opts, snd (memoizeDecorator opts s)) \<and>
         (\<forall>descriptor e. apply_decorator (Decorator (next_decorator s) opts) descriptor = Inl e \<longrightarrow>
            originalMethod descriptor = None) \<and>
         (\<forall>d a args. memoizedMethodsMap s d a = None \<longrightarrow>
            (\<exists>s'. decorated_value d om opts a args s = (Inl (configuration_error n), s') \<and>
                  calls s' = calls s \<and> world s' = world s \<and>
                  memoizedMethodsMap s' = memoizedMethodsMap s \<and>
                  cacheStore s' = cacheStore s)) \<and>
         (\<forall>k a args. get_method a k s = None \<longrightarrow>
            (\<exists>s'. decorated_value_dist k om opts a args s = (Inl (configuration_error n), s') \<and>
                  calls s' = calls s \<and> world s' = world s \<and>
                  own_methods s' = own_methods s \<and>
                  cacheStore s' = cacheStore s))"
proof -
  note m = memoize_out_of_range [OF assms]
  have A: "\<exists>s'. memoize f opts s = (Inl (configuration_error n), s') \<and>
            next_fn s' = next_fn s \<and> cacheStore s' = cacheStore s \<and>
            cacheTimerStore s' = cacheTimerStore s \<and> pending s' = pending s \<and>
            calls s' = calls s \<and> world s' = world s \<and>
            (\<forall>c. c \<noteq> next_cache s \<longrightarrow> caches s' c = caches s c)"
    by (cases "opt_cache opts") (simp_all add: m new_Map_frame)
  have B: "memoizeDecorator opts s =
           (Decorator (next_decorator s) opts, snd (memoizeDecorator opts s))"
    by (simp add: memoizeDecorator_def)
  have C: "\<exists>s'. decorated_value d om opts a args s = (Inl (configuration_error n), s') \<and>
                  calls s' = calls s \<and> world s' = world s \<and>
                  memoizedMethodsMap s' = memoizedMethodsMap s \<and>
                  cacheStore s' = cacheStore s"
    if "memoizedMethodsMap s d a = None" for d a args
    using that
    by (cases "opt_cache opts")
       (simp_all add: decorated_value_def bind_this_def m new_Map_frame)
  have D: "\<exists>s'. decorated_value_dist k om opts a args s = (Inl (configuration_error n), s') \<and>
                  calls s' = calls s \<and> world s' = world s \<and>
                  own_methods s' = own_methods s \<and>
                  cacheStore s' = cacheStore s"
    if "get_method a k s = None" for k a args
    using that
    by (cases "opt_cache opts")
       (simp_all add: decorated_value_dist_def bind_this_def m new_Map_frame)
  have E: "originalMethod descriptor = None"
    if "apply_decorator (Decorator (next_decorator s) opts) descriptor = Inl e" for descriptor e
    using that by (auto simp: apply_decorator_def Let_def split: option.splits if_splits)
  from A B C D E show ?thesis by blast
qed

theorem memoize_rejects_maxAge_out_of_range_witness:
  "opt_maxAge negative_maxAge = Some (Fin (- 1)) \<and> out_of_range (Fin (- 1)) \<and>
   fst (memoize counter negative_maxAge (initial 0)) =
     Inl (TypeError ''The `maxAge` option should not be a negative number.'') \<and>
   fst (decorated_value 0 counter negative_maxAge 5 [] (initial 0)) =
     Inl (TypeError ''The `maxAge` option should not be a negative number.'')"
proof -
  have h1: "opt_maxAge negative_maxAge = Some (Fin (- 1))" by (simp add: negative_maxAge_def)
  have h2: "out_of_range (Fin (- 1))" by (simp add: out_of_range_def)
  have e: "configuration_error (Fin (- 1)) =
             TypeError ''The `maxAge` option should not be a negative number.''"
    by (simp add: configuration_error_def)
  have g: "memoizedMethodsMap (initial (0::nat)) 0 5 = None" by (simp add: initial_def)
  note t = memoize_rejects_maxAge_out_of_range [OF h1 h2, of counter "initial 0" counter]
  from t have a: "fst (memoize counter negative_maxAge (initial 0)) = Inl (configuration_error (Fin (- 1)))"
    by (metis fst_conv)
  from t g have b: "fst (decorated_value 0 counter negative_maxAge 5 [] (initial 0)) =
                      Inl (configuration_error (Fin (- 1)))"
    by (metis fst_conv)
  from h1 h2 a b show ?thesis unfolding e by blast
qed

text \<open>
  Claim C4 as stated also has \<open>memoizeDecorator\<close> throw at call time. It does not: with
  \<open>maxAge: -1\<close> it returns a decorator, and the decorator installs the method.
\<close>

theorem memoizeDecorator_defers_maxAge_check:
  "apply_decorator (fst (memoizeDecorator negative_maxAge (initial (0::nat)))) counter_method =
     Inr (MemoMethod 0 counter negative_maxAge) \<and>
   fst (apply_decorator_dist (memoizeDecorator_dist negative_maxAge) counter_method (initial 0)) =
     Inr (SymMethod 0 counter negative_maxAge)"
  by (simp add: memoizeDecorator_def apply_decorator_def originalMethod_def counter_method_def
        initial_def apply_decorator_dist_def memoizeDecorator_dist_def originalMethod_dist_def
        new_Symbol_def Let_def)

subsection \<open>\<open>memoizeClear\<close> on a memoized function\<close>

lemma nested_wrappers:
  "fst (memoize counter maxAge_1000 (initial 0)) = Inr wrapper1"
  "fst (memoize wrapper1 maxAge_1000 (snd (memoize counter maxAge_1000 (initial 0)))) = Inr wrapper2"
  by (simp_all add: memoize_def maxAge_1000_def initial_def new_Map_def wrapper1_def wrapper2_def
        maxSetIntervalValue_def Let_def)

lemma fold_clearTimeout_pending:
  "pending (fold clearTimeout ts s) t = (if t \<in> set ts then None else pending s t)"
  by (induction ts arbitrary: s) (auto simp: clearTimeout_def)

lemma fold_clearTimeout_frame:
  "caches (fold clearTimeout ts s) = caches s"
  "cacheStore (fold clearTimeout ts s) = cacheStore s"
  "cacheTimerStore (fold clearTimeout ts s) = cacheTimerStore s"
  "calls (fold clearTimeout ts s) = calls s"
  "world (fold clearTimeout ts s) = world s"
  "now (fold clearTimeout ts s) = now s"
  by (induction ts arbitrary: s) (simp_all add: clearTimeout_def)

lemma memoizeClear_ok:
  assumes "cacheStore s (identity f) = Some c" and "has_clear (caches s c)"
  shows "memoizeClear f s =
           (Inr (), fold clearTimeout (recorded_timers (identity f) s) (cache_clear c s))"
  using assms by (simp add: memoizeClear_def recorded_timers_def cache_clear_def Let_def)
lemma nested_state_facts:
  "cacheStore nested_state (Wrap 0) = Some 0"
  "has_clear (caches nested_state 0)"
  "cacheTimerStore nested_state (Wrap 0) = Some [1]"
  "cacheTimerStore nested_state (Orig 1) = Some [0]"
  "pending nested_state 0 = Some \<lparr>t_cache = 0, t_key = VStr ''a'', t_delay = Fin 1000\<rparr>"
  "pending nested_state 1 = Some \<lparr>t_cache = 1, t_key = VStr ''a'', t_delay = Fin 1000\<rparr>"
  "entries (caches nested_state 0) (VStr ''a'') = Some \<lparr>data = VNum (Fin 1), maxAge = Fin 1000\<rparr>"
  by (simp_all add: nested_state_def wrapper1_def wrapper2_def counter_def counter_body_def memoize_def
        maxAge_1000_def initial_def new_Map_def cache_get_def cache_set_def derive_key_def
        expiry_def schedule_eviction_def setTimeout_def set_add_def maxSetIntervalValue_def Let_def)

lemma nested_state_world:
  "world nested_state = 1" "now nested_state = 0"
  by (simp_all add: nested_state_def wrapper1_def wrapper2_def counter_def counter_body_def memoize_def
        maxAge_1000_def initial_def new_Map_def cache_get_def cache_set_def derive_key_def
        expiry_def schedule_eviction_def setTimeout_def set_add_def maxSetIntervalValue_def Let_def)

text \<open>
  Claim C2, as the code has it. Let a wrapper of an original callable hold the storage
  association, with a storage that implements \<open>clear\<close>. Then \<open>memoizeClear\<close> succeeds,
  the storage is empty afterwards, every timer handle recorded in \<open>cacheTimerStore\<close>
  under the wrapper's identity is cancelled (it is not scheduled any more) and no other
  timer is touched, while \<open>cacheTimerStore\<close> itself is left as it was: the cancelled
  handles stay recorded. The clock is not involved, and the next call of the wrapper,
  whatever its arguments, invokes the original again.
\<close>

theorem memoizeClear_clears_and_cancels:
  assumes reg: "cacheStore s (identity (Memoized m (Native n body) ck c ma)) = Some c"
      and clr: "has_clear (caches s c)"
  shows "\<exists>s'. memoizeClear (Memoized m (Native n body) ck c ma) s = (Inr (), s') \<and>
           entries (caches s' c) = Map.empty \<and>
           (\<forall>t \<in> set (recorded_timers (Wrap m) s). pending s' t = None) \<and>
           (\<forall>t. t \<notin> set (recorded_timers (Wrap m) s) \<longrightarrow> pending s' t = pending s t) \<and>
           cacheTimerStore s' = cacheTimerStore s \<and> cacheStore s' = cacheStore s \<and>
           now s' = now s \<and>
           (\<forall>this args.
              calls (snd (call (Memoized m (Native n body) ck c ma) this args s')) =
                calls s' @ [(n, this, args)])"
proof -
  let ?W = "Memoized m (Native n body) ck c ma"
  let ?s' = "fold clearTimeout (recorded_timers (identity ?W) s) (cache_clear c s)"
  have run: "memoizeClear ?W s = (Inr (), ?s')"
    using reg clr by (rule memoizeClear_ok)
  have empty: "entries (caches ?s' c) = Map.empty"
    by (simp add: fold_clearTimeout_frame cache_clear_def)
  have cancelled: "\<forall>t \<in> set (recorded_timers (Wrap m) s). pending ?s' t = None"
    by (simp add: fold_clearTimeout_pending)
  have others: "\<forall>t. t \<notin> set (recorded_timers (Wrap m) s) \<longrightarrow> pending ?s' t = pending s t"
    by (simp add: fold_clearTimeout_pending cache_clear_def)
  have frame: "cacheTimerStore ?s' = cacheTimerStore s \<and> cacheStore ?s' = cacheStore s \<and>
               now ?s' = now s"
    by (simp add: fold_clearTimeout_frame cache_clear_def)
  have again: "calls (snd (call ?W this args ?s')) = calls ?s' @ [(n, this, args)]" for this args
  proof -
    have miss: "cache_get c (derive_key ck args) ?s' = None"
      using empty by (simp add: cache_get_def)
    obtain r w where b: "body (world ?s') this args = (r, w)"
      by (cases "body (world ?s') this args")
    let ?s1 = "?s'\<lparr>world := w, calls := calls ?s' @ [(n, this, args)]\<rparr>"
    have inner: "call (Native n body) this args ?s' = (r, ?s1)"
      using b by simp
    show ?thesis
    proof (cases r)
      case (Inl e)
      with inner have "call (Native n body) this args ?s' = (Inl e, ?s1)" by simp
      from call_Memoized_miss_err [OF miss this, of m ma] show ?thesis by simp
    next
      case (Inr v)
      with inner have "call (Native n body) this args ?s' = (Inr v, ?s1)" by simp
      from call_Memoized_miss_ok [OF miss this, of m ma] show ?thesis
        by (simp add: calls_schedule_eviction calls_cache_set)
    qed
  qed
  from run empty cancelled others frame again show ?thesis by blast
qed

theorem memoizeClear_clears_and_cancels_witness:
  "cacheStore nested_state (identity wrapper1) = Some 0 \<and>
   has_clear (caches nested_state 0) \<and>
   recorded_timers (Wrap 0) nested_state = [1] \<and>
   entries (caches nested_state 0) (VStr ''a'') \<noteq> None \<and>
   pending nested_state 1 \<noteq> None \<and>
   fst (memoizeClear wrapper1 nested_state) = Inr () \<and>
   entries (caches (snd (memoizeClear wrapper1 nested_state)) 0) = Map.empty \<and>
   pending (snd (memoizeClear wrapper1 nested_state)) 1 = None \<and>
   calls (snd (call wrapper1 Undefined [VStr ''a''] (snd (memoizeClear wrapper1 nested_state)))) =
     calls (snd (memoizeClear wrapper1 nested_state)) @ [(1, Undefined, [VStr ''a''])]"
proof -
  let ?W = "Memoized 0 (Native 1 counter_body) None 0 (Some (Fin 1000))"
  have W: "wrapper1 = ?W" by (simp add: wrapper1_def counter_def)
  have h1: "cacheStore nested_state (identity ?W) = Some 0"
    by (simp add: nested_state_facts)
  have h2: "has_clear (caches nested_state 0)" by (simp add: nested_state_facts)
  have r: "recorded_timers (Wrap 0) nested_state = [1]"
    by (simp add: recorded_timers_def nested_state_facts)
  have e: "entries (caches nested_state 0) (VStr ''a'') \<noteq> None"
    by (simp add: nested_state_facts)
  have p: "pending nested_state 1 \<noteq> None" using nested_state_facts(6) by simp
  from memoizeClear_clears_and_cancels [OF h1 h2] obtain s' where
    a: "memoizeClear ?W nested_state = (Inr (), s')" and
    b: "entries (caches s' 0) = Map.empty" and
    c: "\<forall>t \<in> set (recorded_timers (Wrap 0) nested_state). pending s' t = None" and
    d: "\<forall>this args. calls (snd (call ?W this args s')) = calls s' @ [(1, this, args)]"
    by blast
  from a have s': "s' = snd (memoizeClear ?W nested_state)" by simp
  from a have a': "fst (memoizeClear ?W nested_state) = Inr ()" by simp
  from c r have c': "pending s' 1 = None" by simp
  from d have d': "calls (snd (call ?W Undefined [VStr ''a''] s')) =
                     calls s' @ [(1, Undefined, [VStr ''a''])]" by blast
  from h1 h2 r e p a' b c' d' show ?thesis unfolding W s' by blast
qed

text \<open>
  Claim C2 as stated also has the cancelled timers removed from the set they are recorded
  in. After \<open>memoizeClear(wrapper1)\<close> the handle recorded under the identity of
  \<open>wrapper1\<close> is still in that set.
\<close>

theorem memoizeClear_keeps_handles_recorded:
  "cacheTimerStore (snd (memoizeClear wrapper1 nested_state)) (identity wrapper1) = Some [1]"
  by (simp add: memoizeClear_def nested_state_facts wrapper1_def Let_def
        clearTimeout_def cache_clear_def)

text \<open>The eviction timer of the entry that \<open>wrapper1\<close> itself stored is recorded under the
  identity of \<open>counter\<close>, so clearing \<open>wrapper1\<close> leaves it scheduled.\<close>

lemma memoizeClear_leaves_own_timer:
  "pending (snd (memoizeClear wrapper1 nested_state)) 0 =
     Some \<lparr>t_cache = 0, t_key = VStr ''a'', t_delay = Fin 1000\<rparr>"
  by (simp add: memoizeClear_def nested_state_facts wrapper1_def Let_def
        clearTimeout_def cache_clear_def)

text \<open>When the cleared wrapper is called again, the entry it stores is deleted by that
  timer as soon as the host fires it, before the entry's own timer is due.\<close>

lemma stale_timer_evicts_recomputed_entry:
  "cache_get 0 (VStr ''a'') recomputed_state = Some \<lparr>data = VNum (Fin 2), maxAge = Fin 1000\<rparr>"
  "pending recomputed_state 0 = Some \<lparr>t_cache = 0, t_key = VStr ''a'', t_delay = Fin 1000\<rparr>"
  "cache_get 0 (VStr ''a'') (fire_timer 0 recomputed_state) = None"
  by (simp_all add: recomputed_state_def memoizeClear_def nested_state_facts nested_state_world
        wrapper1_def Let_def
        clearTimeout_def cache_clear_def cache_get_def cache_set_def cache_delete_def
        fire_timer_def counter_def counter_body_def derive_key_def expiry_def
        schedule_eviction_def setTimeout_def set_add_def)

section \<open>Properties of the decorators\<close>

subsection \<open>What a call leaves alone\<close>

lemma call_frame_refl: "call_frame s s"
  by (simp add: call_frame_def)

lemma call_frame_trans: "call_frame s s1 \<Longrightarrow> call_frame s1 s2 \<Longrightarrow> call_frame s s2"
  by (simp add: call_frame_def)

lemma call_frame_cache_set: "call_frame s (cache_set c key it s)"
  by (simp add: call_frame_def cache_set_def)

lemma call_frame_schedule_eviction: "call_frame s (schedule_eviction fid c key ma s)"
  by (simp add: call_frame_def schedule_eviction_def setTimeout_def Let_def split: option.splits)

lemma call_keeps_frame: "call_frame s (snd (call f this args s))"
proof (induction f this args s rule: call.induct)
  case (1 n body this args s)
  show ?case by (simp add: call_frame_def Let_def split: prod.splits)
next
  case (2 i f r this args s)
  then show ?case by simp
next
  case (3 m fn cacheKey c max_age this args s)
  show ?case
  proof (cases "cache_get c (derive_key cacheKey args) s")
    case (Some it)
    then show ?thesis by (simp add: call_frame_refl)
  next
    case None
    obtain r s1 where inner: "call fn this args s = (r, s1)"
      by (cases "call fn this args s")
    from "3.IH" [OF refl None] inner have f1: "call_frame s s1" by simp
    show ?thesis
    proof (cases r)
      case (Inl e)
      with None inner f1 show ?thesis by simp
    next
      case (Inr v)
      with inner have "call fn this args s = (Inr v, s1)" by simp
      from call_Memoized_miss_ok [OF None this, of m max_age]
      show ?thesis
        using f1 call_frame_cache_set call_frame_schedule_eviction call_frame_trans
        by (metis snd_conv)
    qed
  qed
qed

subsection \<open>Sequences of events\<close>

lemma run_append:
  "run member (es @ [e]) s =
     (case e of Use r a \<Rightarrow> snd (member r a (run member es s)) | Elsewhere t \<Rightarrow> t (run member es s))"
  by (induction member es s rule: run.induct) (auto split: event.splits)

lemma results_append:
  "results member (es @ [e]) s =
     results member es s @
       (case e of Use r a \<Rightarrow> [(r, a, fst (member r a (run member es s)))] | Elsewhere t \<Rightarrow> [])"
  by (induction member es s rule: results.induct) (auto split: event.splits)



lemma undisturbed_app:
  "undisturbed keeps member (xs @ ys) s \<longleftrightarrow>
     undisturbed keeps member xs s \<and> undisturbed keeps member ys (run member xs s)"
  by (induction keeps member xs s rule: undisturbed.induct) auto

lemma undisturbed_append:
  "undisturbed keeps member (es @ [e]) s \<longleftrightarrow>
     undisturbed keeps member es s \<and>
     (case e of Use r a \<Rightarrow> True
      | Elsewhere t \<Rightarrow> keeps (run member es s) (t (run member es s)))"
  by (cases e) (simp_all add: undisturbed_app)

lemma remembered_iff_returned:
  assumes step: "\<And>r0 a s r v. lookup (snd (member r0 a s)) r = Some v \<longleftrightarrow>
                   lookup s r = Some v \<or> (r0 = r \<and> fst (member r0 a s) = Inr v)"
      and init: "\<And>r. lookup s1 r = None"
      and keep: "\<And>s s'. keeps s s' \<Longrightarrow> lookup s' = lookup s"
  shows "undisturbed keeps member es s1 \<Longrightarrow>
         lookup (run member es s1) r = Some v \<longleftrightarrow> (\<exists>a. (r, a, Inr v) \<in> set (results member es s1))"
proof (induction es rule: rev_induct)
  case Nil
  show ?case by (simp add: init)
next
  case (snoc e es)
  have u: "undisturbed keeps member es s1" using snoc.prems by (simp add: undisturbed_append)
  have IH: "lookup (run member es s1) r = Some v \<longleftrightarrow> (\<exists>a. (r, a, Inr v) \<in> set (results member es s1))"
    using snoc.IH [OF u] .
  show ?case
  proof (cases e)
    case (Use r0 a0)
    show ?thesis
      using IH step [of r0 a0 "run member es s1" r v]
      by (auto simp: run_append results_append Use)
  next
    case (Elsewhere t)
    have "keeps (run member es s1) (t (run member es s1))"
      using snoc.prems Elsewhere by (simp add: undisturbed_append)
    then have "lookup (t (run member es s1)) = lookup (run member es s1)" by (rule keep)
    then show ?thesis using IH by (simp add: run_append results_append Elsewhere)
  qed
qed

subsection \<open>Decorated getters\<close>

lemma decorated_get_step:
  "memoizedValuesMap (snd (decorated_get d om r0 s)) d r = Some v \<longleftrightarrow>
     memoizedValuesMap s d r = Some v \<or> (r0 = r \<and> fst (decorated_get d om r0 s) = Inr v)"
proof -
  obtain res s' where c: "call om (VObj r0) [] s = (res, s')" by (cases "call om (VObj r0) [] s")
  have "call_frame s (snd (call om (VObj r0) [] s))" by (rule call_keeps_frame)
  with c have m: "memoizedValuesMap s' = memoizedValuesMap s" by (simp add: call_frame_def)
  show ?thesis
    by (cases "memoizedValuesMap s d r0"; cases res) (auto simp: decorated_get_def c m)
qed

lemma decorated_get_dist_step:
  "own_values (snd (decorated_get_dist k om r0 s)) r k = Some v \<longleftrightarrow>
     own_values s r k = Some v \<or> (r0 = r \<and> fst (decorated_get_dist k om r0 s) = Inr v)"
proof -
  obtain res s' where c: "call om (VObj r0) [] s = (res, s')" by (cases "call om (VObj r0) [] s")
  have "call_frame s (snd (call om (VObj r0) [] s))" by (rule call_keeps_frame)
  with c have m: "own_values s' = own_values s" by (simp add: call_frame_def)
  show ?thesis
    by (cases "own_values s r0 k"; cases res) (auto simp: decorated_get_dist_def c m)
qed

lemma decorated_get_remembered:
  assumes "memoizedValuesMap s1 d = Map.empty"
      and "undisturbed (keeps_values d) (\<lambda>r args. decorated_get d om r) es s1"
  shows "memoizedValuesMap (run (\<lambda>r args. decorated_get d om r) es s1) d r = Some v \<longleftrightarrow>
         (\<exists>a. (r, a, Inr v) \<in> set (results (\<lambda>r args. decorated_get d om r) es s1))"
proof (rule remembered_iff_returned [where lookup = "\<lambda>s. memoizedValuesMap s d" and keeps = "keeps_values d"])
  show "\<And>r0 a s r v. memoizedValuesMap (snd (decorated_get d om r0 s)) d r = Some v \<longleftrightarrow>
          memoizedValuesMap s d r = Some v \<or> (r0 = r \<and> fst (decorated_get d om r0 s) = Inr v)"
    by (rule decorated_get_step)
  show "\<And>r. memoizedValuesMap s1 d r = None" using assms(1) by simp
  show "\<And>s s'. keeps_values d s s' \<Longrightarrow> memoizedValuesMap s' d = memoizedValuesMap s d"
    by (simp add: keeps_values_def)
  show "undisturbed (keeps_values d) (\<lambda>r args. decorated_get d om r) es s1" by (rule assms(2))
qed

lemma decorated_get_dist_remembered:
  assumes "\<forall>r. own_values t1 r k = None"
      and "undisturbed (keeps_own_values k) (\<lambda>r args. decorated_get_dist k om r) es t1"
  shows "own_values (run (\<lambda>r args. decorated_get_dist k om r) es t1) r k = Some v \<longleftrightarrow>
         (\<exists>a. (r, a, Inr v) \<in> set (results (\<lambda>r args. decorated_get_dist k om r) es t1))"
proof (rule remembered_iff_returned [where lookup = "\<lambda>s r. own_values s r k" and keeps = "keeps_own_values k"])
  show "\<And>r0 a s r v. own_values (snd (decorated_get_dist k om r0 s)) r k = Some v \<longleftrightarrow>
          own_values s r k = Some v \<or> (r0 = r \<and> fst (decorated_get_dist k om r0 s) = Inr v)"
    by (rule decorated_get_dist_step)
  show "\<And>r. own_values t1 r k = None" using assms(1) by simp
  show "\<And>s s'. keeps_own_values k s s' \<Longrightarrow> (\<lambda>r. own_values s' r k) = (\<lambda>r. own_values s r k)"
    by (simp add: keeps_own_values_def)
  show "undisturbed (keeps_own_values k) (\<lambda>r args. decorated_get_dist k om r) es t1" by (rule assms(2))
qed

lemma decorated_get_stored:
  "memoizedValuesMap s d r = Some v \<Longrightarrow> decorated_get d om r s = (Inr v, s)"
  by (simp add: decorated_get_def)

lemma decorated_get_invokes:
  assumes "memoizedValuesMap s d r = None"
  shows "\<exists>res s'. call om (VObj r) [] s = (res, s') \<and>
           fst (decorated_get d om r s) = res \<and>
           calls (snd (decorated_get d om r s)) = calls s' \<and>
           world (snd (decorated_get d om r s)) = world s'"
proof -
  obtain res s' where c: "call om (VObj r) [] s = (res, s')" by (cases "call om (VObj r) [] s")
  show ?thesis by (cases res) (simp_all add: decorated_get_def assms c)
qed

lemma decorated_get_dist_stored:
  "own_values s r k = Some v \<Longrightarrow> decorated_get_dist k om r s = (Inr v, s)"
  by (simp add: decorated_get_dist_def)

lemma decorated_get_dist_invokes:
  assumes "own_values s r k = None" and "extensible s r"
  shows "\<exists>res s'. call om (VObj r) [] s = (res, s') \<and>
           fst (decorated_get_dist k om r s) = res \<and>
           calls (snd (decorated_get_dist k om r s)) = calls s' \<and>
           world (snd (decorated_get_dist k om r s)) = world s'"
proof -
  obtain res s' where c: "call om (VObj r) [] s = (res, s')" by (cases "call om (VObj r) [] s")
  have "call_frame s (snd (call om (VObj r) [] s))" by (rule call_keeps_frame)
  with c have m: "extensible s' = extensible s" by (simp add: call_frame_def)
  show ?thesis by (cases res) (simp_all add: decorated_get_dist_def assms c m)
qed

lemma getter_of_decorator:
  assumes "memoizeDecorator opts s0 = (dec, s1)"
      and "apply_decorator dec desc = Inr (MemoGetter d om)"
  shows "d = next_decorator s0" "memoizedValuesMap s1 d = Map.empty"
        "\<forall>opts'. \<exists>dec'. memoizeDecorator opts' s0 = (dec', s1) \<and>
                  apply_decorator dec' desc = Inr (MemoGetter d om)"
  using assms
  by (auto simp: memoizeDecorator_def apply_decorator_def Let_def split: option.splits if_splits)

lemma getter_of_decorator_dist:
  assumes "apply_decorator_dist (memoizeDecorator_dist opts) desc t0 = (Inr (SymGetter k om), t1)"
  shows "\<forall>r. own_values t1 r k = None"
        "\<forall>opts'. apply_decorator_dist (memoizeDecorator_dist opts') desc t0 = (Inr (SymGetter k om), t1)"
  using assms
  by (auto simp: memoizeDecorator_dist_def apply_decorator_dist_def new_Symbol_def Let_def
           split: option.splits if_splits)

text \<open>
  Claim C8, as the code has it. A getter is decorated by a decorator that decorates no
  other getter, so that
  whatever else the program does leaves alone the values remembered for the getter.
  After any sequence of reads of the getter and of other events, in the state the
  decorator was created in: a read on a receiver
  for which an earlier read returned a value returns that value and changes nothing, so
  the body is not invoked; a read on a receiver for which no earlier read returned a
  value (none was made, or each one threw) is an invocation of the body on that
  receiver, with its result and its effects, whatever was read on other receivers. The
  getter and the state are the same whatever the options. The build that records the
  value in a property of the receiver behaves so for the getter of each application of
  a decorator; the statement about a read that invokes the body is made there for a
  receiver that is extensible.
\<close>

theorem decorated_getter_once_per_receiver:
  assumes "memoizeDecorator opts s0 = (dec, s1)"
      and "apply_decorator dec desc = Inr (MemoGetter d om)"
      and "undisturbed (keeps_values d) (\<lambda>r args. decorated_get d om r) es s1"
      and "s = run (\<lambda>r args. decorated_get d om r) es s1"
      and "h = results (\<lambda>r args. decorated_get d om r) es s1"
      and "apply_decorator_dist (memoizeDecorator_dist opts) desc' t0 = (Inr (SymGetter k om'), t1)"
      and "undisturbed (keeps_own_values k) (\<lambda>r args. decorated_get_dist k om' r) es' t1"
      and "t = run (\<lambda>r args. decorated_get_dist k om' r) es' t1"
      and "g = results (\<lambda>r args. decorated_get_dist k om' r) es' t1"
  shows "(\<forall>r a v. (r, a, Inr v) \<in> set h \<longrightarrow> decorated_get d om r s = (Inr v, s)) \<and>
     (\<forall>r. (\<forall>a v. (r, a, Inr v) \<notin> set h) \<longrightarrow>
        (\<exists>res s'. call om (VObj r) [] s = (res, s') \<and>
           fst (decorated_get d om r s) = res \<and>
           calls (snd (decorated_get d om r s)) = calls s' \<and>
           world (snd (decorated_get d om r s)) = world s')) \<and>
     (\<forall>opts'. \<exists>dec'. memoizeDecorator opts' s0 = (dec', s1) \<and>
                 apply_decorator dec' desc = Inr (MemoGetter d om)) \<and>
     (\<forall>r a v. (r, a, Inr v) \<in> set g \<longrightarrow> decorated_get_dist k om' r t = (Inr v, t)) \<and>
     (\<forall>r. (\<forall>a v. (r, a, Inr v) \<notin> set g) \<and> extensible t r \<longrightarrow>
        (\<exists>res t'. call om' (VObj r) [] t = (res, t') \<and>
           fst (decorated_get_dist k om' r t) = res \<and>
           calls (snd (decorated_get_dist k om' r t)) = calls t' \<and>
           world (snd (decorated_get_dist k om' r t)) = world t')) \<and>
     (\<forall>opts'. apply_decorator_dist (memoizeDecorator_dist opts') desc' t0 =
                 (Inr (SymGetter k om'), t1))"
proof (intro conjI allI impI)
  note rem = decorated_get_remembered [OF getter_of_decorator(2) [OF assms(1,2)] assms(3),
               folded assms(4,5)]
  note rem_dist = decorated_get_dist_remembered [OF getter_of_decorator_dist(1) [OF assms(6)] assms(7),
               folded assms(8,9)]
  {
    fix r a v assume "(r, a, Inr v) \<in> set h"
    then have "memoizedValuesMap s d r = Some v" using rem by blast
    then show "decorated_get d om r s = (Inr v, s)" by (rule decorated_get_stored)
  next
    fix r assume "\<forall>a v. (r, a, Inr v) \<notin> set h"
    then have "memoizedValuesMap s d r = None" using rem [of r] by (cases "memoizedValuesMap s d r") auto
    then show "\<exists>res s'. call om (VObj r) [] s = (res, s') \<and>
           fst (decorated_get d om r s) = res \<and>
           calls (snd (decorated_get d om r s)) = calls s' \<and>
           world (snd (decorated_get d om r s)) = world s'"
      by (rule decorated_get_invokes)
  next
    fix opts'
    show "\<exists>dec'. memoizeDecorator opts' s0 = (dec', s1) \<and>
                 apply_decorator dec' desc = Inr (MemoGetter d om)"
      using getter_of_decorator(3) [OF assms(1,2)] by blast
  next
    fix r a v assume "(r, a, Inr v) \<in> set g"
    then have "own_values t r k = Some v" using rem_dist by blast
    then show "decorated_get_dist k om' r t = (Inr v, t)" by (rule decorated_get_dist_stored)
  next
    fix r assume a: "(\<forall>a v. (r, a, Inr v) \<notin> set g) \<and> extensible t r"
    then have "own_values t r k = None" using rem_dist [of r] by (cases "own_values t r k") auto
    with a show "\<exists>res t'. call om' (VObj r) [] t = (res, t') \<and>
           fst (decorated_get_dist k om' r t) = res \<and>
           calls (snd (decorated_get_dist k om' r t)) = calls t' \<and>
           world (snd (decorated_get_dist k om' r t)) = world t'"
      by (intro decorated_get_dist_invokes) auto
  next
    fix opts'
    show "apply_decorator_dist (memoizeDecorator_dist opts') desc' t0 = (Inr (SymGetter k om'), t1)"
      using getter_of_decorator_dist(2) [OF assms(6)] by blast
  }
qed

lemma getter_events_facts:
  "results (\<lambda>r args. decorated_get 0 (Native 2 flaky_body) r) getter_events getter_decorated =
     [(5, [], Inl (Thrown (VStr ''boom''))), (5, [], Inr (VNum (Fin 1))), (6, [], Inr (VNum (Fin 2)))]"
  "calls (run (\<lambda>r args. decorated_get 0 (Native 2 flaky_body) r) getter_events getter_decorated) =
     [(2, VObj 5, []), (2, VObj 5, []), (12, VObj 5, []), (2, VObj 6, [])]"
  "world (run (\<lambda>r args. decorated_get 0 (Native 2 flaky_body) r) getter_events getter_decorated) = 3"
  "memoizedValuesMap (run (\<lambda>r args. decorated_get 0 (Native 2 flaky_body) r) getter_events getter_decorated) 0 7 = None"
  by (simp_all add: getter_events_def getter_decorated_def memoizeDecorator_def initial_def
        decorated_get_def flaky_body_def advance_clock_def size_getter_def pure_callable_def)

lemma getter_events_dist_facts:
  "results (\<lambda>r args. decorated_get_dist 0 (Native 2 flaky_body) r) getter_events getter_decorated_dist =
     [(5, [], Inl (Thrown (VStr ''boom''))), (5, [], Inr (VNum (Fin 1))), (6, [], Inr (VNum (Fin 2)))]"
  "calls (run (\<lambda>r args. decorated_get_dist 0 (Native 2 flaky_body) r) getter_events getter_decorated_dist) =
     [(2, VObj 5, []), (2, VObj 5, []), (12, VObj 5, []), (2, VObj 6, [])]"
  "world (run (\<lambda>r args. decorated_get_dist 0 (Native 2 flaky_body) r) getter_events getter_decorated_dist) = 3"
  "extensible (run (\<lambda>r args. decorated_get_dist 0 (Native 2 flaky_body) r) getter_events getter_decorated_dist) 7"
  by (simp_all add: getter_events_def getter_decorated_dist_def memoizeDecorator_dist_def
        apply_decorator_dist_def originalMethod_dist_def flaky_getter_def new_Symbol_def initial_def
        decorated_get_dist_def flaky_body_def advance_clock_def Let_def
        memoizeDecorator_def decorated_get_def size_getter_def pure_callable_def)

theorem decorated_getter_once_per_receiver_witness:
  "memoizeDecorator maxAge_1000 (initial 0) = (Decorator 0 maxAge_1000, getter_decorated) \<and>
   apply_decorator (Decorator 0 maxAge_1000) flaky_getter = Inr (MemoGetter 0 (Native 2 flaky_body)) \<and>
   undisturbed (keeps_values 0) (\<lambda>r args. decorated_get 0 (Native 2 flaky_body) r)
     getter_events getter_decorated \<and>
   apply_decorator_dist (memoizeDecorator_dist maxAge_1000) flaky_getter (initial 0) =
     (Inr (SymGetter 0 (Native 2 flaky_body)), getter_decorated_dist) \<and>
   undisturbed (keeps_own_values 0) (\<lambda>r args. decorated_get_dist 0 (Native 2 flaky_body) r)
     getter_events getter_decorated_dist \<and>
   results (\<lambda>r args. decorated_get 0 (Native 2 flaky_body) r) getter_events getter_decorated =
     [(5, [], Inl (Thrown (VStr ''boom''))), (5, [], Inr (VNum (Fin 1))), (6, [], Inr (VNum (Fin 2)))] \<and>
   decorated_get 0 (Native 2 flaky_body) 5
      (run (\<lambda>r args. decorated_get 0 (Native 2 flaky_body) r) getter_events getter_decorated) =
     (Inr (VNum (Fin 1)),
      run (\<lambda>r args. decorated_get 0 (Native 2 flaky_body) r) getter_events getter_decorated) \<and>
   fst (decorated_get 0 (Native 2 flaky_body) 7
      (run (\<lambda>r args. decorated_get 0 (Native 2 flaky_body) r) getter_events getter_decorated)) =
     Inr (VNum (Fin 3)) \<and>
   calls (snd (decorated_get 0 (Native 2 flaky_body) 7
      (run (\<lambda>r args. decorated_get 0 (Native 2 flaky_body) r) getter_events getter_decorated))) =
     [(2, VObj 5, []), (2, VObj 5, []), (12, VObj 5, []), (2, VObj 6, []), (2, VObj 7, [])] \<and>
   results (\<lambda>r args. decorated_get_dist 0 (Native 2 flaky_body) r) getter_events getter_decorated_dist =
     [(5, [], Inl (Thrown (VStr ''boom''))), (5, [], Inr (VNum (Fin 1))), (6, [], Inr (VNum (Fin 2)))] \<and>
   decorated_get_dist 0 (Native 2 flaky_body) 5
      (run (\<lambda>r args. decorated_get_dist 0 (Native 2 flaky_body) r) getter_events getter_decorated_dist) =
     (Inr (VNum (Fin 1)),
      run (\<lambda>r args. decorated_get_dist 0 (Native 2 flaky_body) r) getter_events getter_decorated_dist) \<and>
   extensible
      (run (\<lambda>r args. decorated_get_dist 0 (Native 2 flaky_body) r) getter_events getter_decorated_dist) 7 \<and>
   fst (decorated_get_dist 0 (Native 2 flaky_body) 7
      (run (\<lambda>r args. decorated_get_dist 0 (Native 2 flaky_body) r) getter_events getter_decorated_dist)) =
     Inr (VNum (Fin 3)) \<and>
   calls (snd (decorated_get_dist 0 (Native 2 flaky_body) 7
      (run (\<lambda>r args. decorated_get_dist 0 (Native 2 flaky_body) r) getter_events getter_decorated_dist))) =
     [(2, VObj 5, []), (2, VObj 5, []), (12, VObj 5, []), (2, VObj 6, []), (2, VObj 7, [])]"
proof -
  let ?om = "Native 2 flaky_body"
  let ?s = "run (\<lambda>r args. decorated_get 0 ?om r) getter_events getter_decorated"
  let ?h = "results (\<lambda>r args. decorated_get 0 ?om r) getter_events getter_decorated"
  let ?t = "run (\<lambda>r args. decorated_get_dist 0 ?om r) getter_events getter_decorated_dist"
  let ?g = "results (\<lambda>r args. decorated_get_dist 0 ?om r) getter_events getter_decorated_dist"
  have h1: "memoizeDecorator maxAge_1000 (initial 0) = (Decorator 0 maxAge_1000, getter_decorated)"
    by (simp add: getter_decorated_def memoizeDecorator_def initial_def)
  have h2: "apply_decorator (Decorator 0 maxAge_1000) flaky_getter = Inr (MemoGetter 0 ?om)"
    by (simp add: apply_decorator_def originalMethod_def flaky_getter_def)
  have h3: "undisturbed (keeps_values 0) (\<lambda>r args. decorated_get 0 ?om r) getter_events getter_decorated"
    by (simp add: getter_events_def keeps_values_def advance_clock_def getter_decorated_def
          memoizeDecorator_def initial_def decorated_get_def flaky_body_def size_getter_def
          pure_callable_def)
  have h6: "apply_decorator_dist (memoizeDecorator_dist maxAge_1000) flaky_getter (initial 0) =
     (Inr (SymGetter 0 ?om), getter_decorated_dist)"
    by (simp add: getter_decorated_dist_def memoizeDecorator_dist_def apply_decorator_dist_def
          originalMethod_dist_def flaky_getter_def new_Symbol_def initial_def Let_def)
  have h7: "undisturbed (keeps_own_values 0) (\<lambda>r args. decorated_get_dist 0 ?om r) getter_events
              getter_decorated_dist"
    by (simp add: getter_events_def keeps_own_values_def advance_clock_def getter_decorated_dist_def
          memoizeDecorator_dist_def apply_decorator_dist_def originalMethod_dist_def flaky_getter_def
          new_Symbol_def initial_def decorated_get_dist_def flaky_body_def Let_def
          memoizeDecorator_def decorated_get_def size_getter_def pure_callable_def)
  note t = decorated_getter_once_per_receiver [OF h1 h2 h3 refl refl h6 h7 refl refl]
  have a1: "decorated_get 0 ?om 5 ?s = (Inr (VNum (Fin 1)), ?s)"
    using t [THEN conjunct1, THEN spec [where x = 5], THEN spec [where x = "[]"],
             THEN spec [where x = "VNum (Fin 1)"]]
    by (simp add: getter_events_facts(1))
  have "\<exists>res s'. call ?om (VObj 7) [] ?s = (res, s') \<and>
           fst (decorated_get 0 ?om 7 ?s) = res \<and>
           calls (snd (decorated_get 0 ?om 7 ?s)) = calls s' \<and>
           world (snd (decorated_get 0 ?om 7 ?s)) = world s'"
    using t [THEN conjunct2, THEN conjunct1, THEN spec [where x = 7]]
    by (simp add: getter_events_facts(1))
  then have a2: "fst (decorated_get 0 ?om 7 ?s) = Inr (VNum (Fin 3))"
    and a3: "calls (snd (decorated_get 0 ?om 7 ?s)) =
               [(2, VObj 5, []), (2, VObj 5, []), (12, VObj 5, []), (2, VObj 6, []), (2, VObj 7, [])]"
    by (auto simp: getter_events_facts(2,3) flaky_body_def)
  have b1: "decorated_get_dist 0 ?om 5 ?t = (Inr (VNum (Fin 1)), ?t)"
    using t [THEN conjunct2, THEN conjunct2, THEN conjunct2, THEN conjunct1,
             THEN spec [where x = 5], THEN spec [where x = "[]"], THEN spec [where x = "VNum (Fin 1)"]]
    by (simp add: getter_events_dist_facts(1))
  have "\<exists>res t'. call ?om (VObj 7) [] ?t = (res, t') \<and>
           fst (decorated_get_dist 0 ?om 7 ?t) = res \<and>
           calls (snd (decorated_get_dist 0 ?om 7 ?t)) = calls t' \<and>
           world (snd (decorated_get_dist 0 ?om 7 ?t)) = world t'"
    using t [THEN conjunct2, THEN conjunct2, THEN conjunct2, THEN conjunct2, THEN conjunct1,
             THEN spec [where x = 7]]
    by (simp add: getter_events_dist_facts(1,4))
  then have b2: "fst (decorated_get_dist 0 ?om 7 ?t) = Inr (VNum (Fin 3))"
    and b3: "calls (snd (decorated_get_dist 0 ?om 7 ?t)) =
               [(2, VObj 5, []), (2, VObj 5, []), (12, VObj 5, []), (2, VObj 6, []), (2, VObj 7, [])]"
    by (auto simp: getter_events_dist_facts(2,3) flaky_body_def)
  show ?thesis
    using h1 h2 h3 h6 h7 getter_events_facts(1) a1 a2 a3 getter_events_dist_facts(1,4) b1 b2 b3
    by (intro conjI)
qed

text \<open>
  Claim C8 as stated has the body invoked at most once for a receiver, and by the first
  read. Runs in which it is invoked twice for one receiver, or is not invoked by the
  first read: a getter whose first invocation throws is invoked again
  by the second read, in both builds. Of two getters decorated by the same decorator,
  the second returns on its first read of an object what the first returned for that
  object, and its body is not invoked. In the build that records the value in a
  property, each read on a sealed object invokes the body and then throws a
  \<open>TypeError\<close>.
\<close>

theorem getter_body_runs_again_or_never:
  "calls (run (\<lambda>r args. decorated_get 0 (Native 2 flaky_body) r) [Use 5 [], Use 5 []] getter_decorated) =
     [(2, VObj 5, []), (2, VObj 5, [])] \<and>
   calls (run (\<lambda>r args. decorated_get_dist 0 (Native 2 flaky_body) r) [Use 5 [], Use 5 []]
            getter_decorated_dist) =
     [(2, VObj 5, []), (2, VObj 5, [])] \<and>
   apply_decorator (Decorator 0 maxAge_1000) \<lparr>d_value = DVal Undefined, d_get = Some name_getter\<rparr> =
     Inr (MemoGetter 0 name_getter) \<and>
   apply_decorator (Decorator 0 maxAge_1000) \<lparr>d_value = DVal Undefined, d_get = Some size_getter\<rparr> =
     Inr (MemoGetter 0 size_getter) \<and>
   decorated_get 0 size_getter 5 (snd (decorated_get 0 name_getter 5 getter_decorated)) =
     (Inr (VStr ''name''), snd (decorated_get 0 name_getter 5 getter_decorated)) \<and>
   calls (snd (decorated_get 0 name_getter 5 getter_decorated)) = [(11, VObj 5, [])] \<and>
   fst (apply_decorator_dist (memoizeDecorator_dist no_options)
          \<lparr>d_value = DVal Undefined, d_get = Some (Native 1 counter_body)\<rparr> sealed_receiver) =
     Inr (SymGetter 0 (Native 1 counter_body)) \<and>
   results (\<lambda>r args. decorated_get_dist 0 (Native 1 counter_body) r) [Use 5 [], Use 5 []]
      (snd (apply_decorator_dist (memoizeDecorator_dist no_options)
          \<lparr>d_value = DVal Undefined, d_get = Some (Native 1 counter_body)\<rparr> sealed_receiver)) =
     [(5, [], Inl (TypeError ''Cannot define property, object is not extensible'')),
      (5, [], Inl (TypeError ''Cannot define property, object is not extensible''))] \<and>
   calls (run (\<lambda>r args. decorated_get_dist 0 (Native 1 counter_body) r) [Use 5 [], Use 5 []]
      (snd (apply_decorator_dist (memoizeDecorator_dist no_options)
          \<lparr>d_value = DVal Undefined, d_get = Some (Native 1 counter_body)\<rparr> sealed_receiver))) =
     [(1, VObj 5, []), (1, VObj 5, [])]"
  by (simp add: getter_decorated_def getter_decorated_dist_def memoizeDecorator_def
        memoizeDecorator_dist_def apply_decorator_def apply_decorator_dist_def originalMethod_def
        originalMethod_dist_def flaky_getter_def new_Symbol_def initial_def sealed_receiver_def
        decorated_get_def decorated_get_dist_def flaky_body_def counter_body_def name_getter_def
        size_getter_def pure_callable_def Let_def)

subsection \<open>Decorated methods\<close>















subsection \<open>Decorated methods, with the memo in a property of the receiver\<close>
















subsection \<open>A call of a decorated method after any sequence of events\<close>























end
